(* ===== verification/Prelude.thy ===== *)
theory Prelude
  imports Complex_Main "HOL-Library.Sublist"
begin

text \<open>
  Shared vocabulary of the development: the exceptions the Python source can raise, the
  result type of a call that may raise, the names of the model's data (frames, matrices,
  silence intervals), and the list facts the component theories rely on. Nothing here
  models a line of the program; the component theories import it.

  The fact collections: \<open>py_defs\<close> holds the unfoldings of the modelled library calls
  (\<open>np.argmax\<close>, \<open>str.split\<close>, \<open>time.gmtime\<close>, ...), \<open>run_defs\<close> the unfoldings of the
  program's own operations. A closed instance of an operation evaluates by
  \<open>simp add: py_defs run_defs\<close>.
\<close>

section \<open>Exceptions and results\<close>

text \<open>
  \<open>External msg\<close> stands for any exception raised inside a collaborator the program only
  calls (the speech model, Qt, the operating system); the program treats it as opaque.
\<close>

datatype py_error =
    IndexError
  | ValueError
  | UnboundLocalError
  | TypeError
  | AttributeError
  | RuntimeError
  | External string

type_synonym 'a result = "py_error + 'a"

named_theorems py_defs "unfoldings of the modelled Python library calls"
named_theorems run_defs "unfoldings of the program's own operations"

lemmas [py_defs] = char_of_def bit_0

definition raises :: "'a result \<Rightarrow> bool" where
  "raises r = isl r"

definition returns :: "'a result \<Rightarrow> 'a \<Rightarrow> bool" where
  "returns r v = (r = Inr v)"

lemma raises_simps [simp]: "raises (Inl e)" "\<not> raises (Inr v)"
  by (simp_all add: raises_def)

lemma returns_simps [simp]: "returns (Inr v) w = (v = w)" "\<not> returns (Inl e) w"
  by (simp_all add: returns_def)

lemma raises_or_returns: "raises r \<or> (\<exists>v. returns r v)"
  by (cases r) simp_all

lemma not_raises_iff: "\<not> raises r \<longleftrightarrow> (\<exists>v. r = Inr v)"
  by (cases r) simp_all

text \<open>
  Sequencing of calls that may raise: the first exception ends the computation, as it
  does in a Python block without a handler.
\<close>

definition and_then :: "'a result \<Rightarrow> ('a \<Rightarrow> 'b result) \<Rightarrow> 'b result" where
  "and_then r f = (case r of Inl e \<Rightarrow> Inl e | Inr v \<Rightarrow> f v)"

lemma and_then_simps [simp]:
  "and_then (Inl e) f = Inl e"
  "and_then (Inr v) f = f v"
  by (simp_all add: and_then_def)

lemma and_then_eq_Inr_iff:
  "and_then r f = Inr w \<longleftrightarrow> (\<exists>v. r = Inr v \<and> f v = Inr w)"
  by (cases r) simp_all

lemma and_then_eq_Inl_iff:
  "and_then r f = Inl e \<longleftrightarrow> r = Inl e \<or> (\<exists>v. r = Inr v \<and> f v = Inl e)"
  by (cases r) simp_all

lemma and_then_cong [fundef_cong]:
  "r = r' \<Longrightarrow> (\<And>v. r' = Inr v \<Longrightarrow> f v = f' v) \<Longrightarrow> and_then r f = and_then r' f'"
  by (cases r') simp_all

text \<open>
  Indexing a Python list or array with a non-negative index: \<open>IndexError\<close> beyond the
  end, where HOL's \<open>xs ! i\<close> would be unspecified.
\<close>

definition py_nth :: "'a list \<Rightarrow> nat \<Rightarrow> 'a result" where
  "py_nth xs i = (if i < length xs then Inr (xs ! i) else Inl IndexError)"

lemma py_nth_in_range [simp]: "i < length xs \<Longrightarrow> py_nth xs i = Inr (xs ! i)"
  by (simp add: py_nth_def)

lemma py_nth_beyond [simp]: "length xs \<le> i \<Longrightarrow> py_nth xs i = Inl IndexError"
  by (simp add: py_nth_def)

lemma py_nth_Cons_0 [simp]: "py_nth (x # xs) 0 = Inr x"
  by (simp add: py_nth_def)

lemma py_nth_Nil [simp]: "py_nth [] i = Inl IndexError"
  by (simp add: py_nth_def)

lemma py_nth_eq_Inr_iff: "py_nth xs i = Inr x \<longleftrightarrow> i < length xs \<and> xs ! i = x"
  by (simp add: py_nth_def)

lemma py_nth_raises_iff: "raises (py_nth xs i) \<longleftrightarrow> length xs \<le> i"
  by (simp add: py_nth_def)

section \<open>Names for the data of the model\<close>

type_synonym frame = "real list"
type_synonym matrix = "real list list"
type_synonym interval = "nat \<times> nat"

section \<open>Lists\<close>

lemma upt_from_1_Suc: "0 < k \<Longrightarrow> [1..<Suc k] = [1..<k] @ [k]"
  by simp

lemma fold_upt_Suc: "0 < k \<Longrightarrow> fold f [1..<Suc k] s = f k (fold f [1..<k] s)"
  by simp

lemma list_all_nth: "list_all P xs \<Longrightarrow> i < length xs \<Longrightarrow> P (xs ! i)"
  by (simp add: list_all_length)

lemma sorted_wrt_snoc:
  "sorted_wrt R (xs @ [x]) \<longleftrightarrow> sorted_wrt R xs \<and> (\<forall>y \<in> set xs. R y x)"
  by (simp add: sorted_wrt_append)

lemma last_in_set_snoc: "xs \<noteq> [] \<Longrightarrow> last xs \<in> set xs"
  by simp

lemma sum_list_divide_const:
  fixes c :: real
  shows "sum_list (map (\<lambda>y. y / c) xs) = sum_list xs / c"
  by (induction xs) (simp_all add: add_divide_distrib)

lemma sum_list_pos_real:
  fixes xs :: "real list"
  shows "xs \<noteq> [] \<Longrightarrow> (\<forall>x \<in> set xs. 0 < x) \<Longrightarrow> 0 < sum_list xs"
  by (induction xs) (auto intro: add_pos_nonneg sum_list_nonneg less_imp_le)

lemma sorted_wrt_cases:
  "sorted_wrt R xs \<Longrightarrow> p \<in> set xs \<Longrightarrow> q \<in> set xs \<Longrightarrow> p = q \<or> R p q \<or> R q p"
  by (induction xs) auto

lemma map_nth_tl: "map ((!) (x # xs)) [1..<Suc (length xs)] = xs"
proof -
  have "map ((!) (x # xs)) [1..<Suc (length xs)] = map ((!) (x # xs)) (map Suc [0..<length xs])"
    by (simp only: map_Suc_upt One_nat_def)
  also have "\<dots> = map ((!) xs) [0..<length xs]"
    by (simp add: comp_def)
  also have "\<dots> = xs"
    by (rule map_nth)
  finally show ?thesis .
qed

lemma last_dropWhile: "dropWhile P xs \<noteq> [] \<Longrightarrow> last (dropWhile P xs) = last xs"
  by (induction xs) (auto split: if_splits)

lemma count_list_filter: "count_list xs x = length (filter ((=) x) xs)"
  by (induction xs) auto

lemma count_list_concat: "count_list (concat xss) x = sum_list (map (\<lambda>xs. count_list xs x) xss)"
  by (induction xss) (simp_all add: count_list_append)

lemma count_list_filter_other: "P x \<Longrightarrow> count_list (filter P xs) x = count_list xs x"
  by (induction xs) auto

end
