(* ===== verification/Workers.thy ===== *)
theory Workers
  imports Prelude
begin

text \<open>
  The two short worker threads of \<open>src/main/python/main_window.py\<close>:
  \<open>ModelLoadingThread.run\<close> (lines 159-175) and \<open>ConvertThread.run\<close> (lines 178-212).

  What a thread does to the outside is a \<open>worker_trace\<close>: the actions it performs in
  order, and the exception that leaves \<open>run\<close> uncaught, if any. The collaborators are
  parameters: \<open>restore\<close> is \<open>EncDecCTCModel.restore_from\<close> (it returns a model or raises),
  \<open>popen\<close> is \<open>subprocess.Popen\<close> (it starts the process and returns at once, or raises
  when the program cannot be started). A file system is the set of paths that exist;
  \<open>QFile.remove\<close> returns a flag and never raises; that it cannot delete an existing file
  (a file in use, missing rights) is outside the model, as is a failure to open
  \<open>log.txt\<close> inside an exception handler. The \<open>startupinfo\<close> object of lines 189-192 is
  built and never passed to \<open>Popen\<close>; it has no counterpart.

  \<open>model_loading_run\<close>: the \<open>finally\<close> clause reads \<open>asr_model\<close>, which has no value when
  \<open>restore_from\<close> raised; the \<open>UnboundLocalError\<close> of that read leaves \<open>run\<close> and the signal
  is not emitted. \<open>convert_run\<close>: the process is started and never waited for, so the
  signal is emitted while \<open>ffmpeg\<close> may still be running.
\<close>

section \<open>Actions and traces\<close>

datatype 'm action =
    RemoveFile string
  | StartProcess "string list"
  | WriteLog py_error
  | EmitFinished
  | EmitFinishedWith 'm

record 'm worker_trace =
  actions :: "'m action list"
  uncaught :: "py_error option"

section \<open>\<open>ModelLoadingThread.run\<close>\<close>

definition model_loading_run :: "(string \<Rightarrow> 'm result) \<Rightarrow> string \<Rightarrow> 'm worker_trace" where
  "model_loading_run restore model_path =
     (case restore model_path of
        Inr asr_model \<Rightarrow> \<lparr>actions = [EmitFinishedWith asr_model], uncaught = None\<rparr>
      | Inl err \<Rightarrow> \<lparr>actions = [WriteLog err], uncaught = Some UnboundLocalError\<rparr>)"

section \<open>\<open>ConvertThread.run\<close>\<close>

definition ffmpeg_command :: "string \<Rightarrow> string \<Rightarrow> string list" where
  "ffmpeg_command file outfile =
     [''ffmpeg'', ''-loglevel'', ''quiet'', ''-i'', file, ''-ar'', ''16000'', ''-ac'', ''1'', outfile]"

definition convert_run ::
  "(string list \<Rightarrow> unit result) \<Rightarrow> string \<Rightarrow> string \<Rightarrow> 'm worker_trace" where
  "convert_run popen file outfile =
     \<lparr>actions =
        [RemoveFile outfile] @
        (case popen (ffmpeg_command file outfile) of
           Inr _ \<Rightarrow> [StartProcess (ffmpeg_command file outfile)]
         | Inl err \<Rightarrow> [WriteLog err]) @
        [EmitFinished],
      uncaught = None\<rparr>"

text \<open>
  What the actions do to the files, and what each started process finds. A file system
  is the set of the paths that exist. \<open>QFile.remove\<close> deletes the file when it exists and
  changes nothing otherwise; appending to \<open>log.txt\<close> creates it. \<open>spawned\<close> runs a trace
  from a file system and returns, for each process the trace starts, its command line
  and the file system at that moment; what a process writes later is not part of the
  thread. \<open>input_of\<close> reads the operand of the option \<open>-i\<close> from a command line, and
  \<open>input_missing\<close> says that a started process names an input that does not exist.
\<close>

fun spawned :: "'m action list \<Rightarrow> string set \<Rightarrow> (string list \<times> string set) list" where
  "spawned [] fs = []"
| "spawned (RemoveFile p # as) fs = spawned as (fs - {p})"
| "spawned (StartProcess cmd # as) fs = (cmd, fs) # spawned as fs"
| "spawned (WriteLog e # as) fs = spawned as (insert ''log.txt'' fs)"
| "spawned (EmitFinished # as) fs = spawned as fs"
| "spawned (EmitFinishedWith m # as) fs = spawned as fs"

fun input_of :: "string list \<Rightarrow> string option" where
  "input_of (a # b # rest) = (if a = ''-i'' then Some b else input_of (b # rest))"
| "input_of _ = None"

definition input_missing :: "string list \<times> string set \<Rightarrow> bool" where
  "input_missing p = (case input_of (fst p) of None \<Rightarrow> False | Some i \<Rightarrow> i \<notin> snd p)"

lemmas [run_defs] = model_loading_run_def ffmpeg_command_def convert_run_def
  input_missing_def

section \<open>Lemmas\<close>

lemma model_loading_run_emits_iff:
  "(\<exists>m. EmitFinishedWith m \<in> set (actions (model_loading_run restore p)))
     \<longleftrightarrow> \<not> raises (restore p)"
  by (cases "restore p") (simp_all add: model_loading_run_def)

lemma model_loading_run_uncaught:
  "uncaught (model_loading_run restore p) =
     (if raises (restore p) then Some UnboundLocalError else None)"
  by (cases "restore p") (simp_all add: model_loading_run_def)

lemma convert_run_last: "last (actions (convert_run popen file outfile)) = EmitFinished"
  by (simp add: convert_run_def)

lemma convert_run_count:
  "count_list (actions (convert_run popen file outfile)) EmitFinished = 1"
  by (simp add: convert_run_def count_list_append split: sum.splits)

lemma convert_run_first: "hd (actions (convert_run popen file outfile)) = RemoveFile outfile"
  by (simp add: convert_run_def)

lemma input_of_ffmpeg_command [simp]: "input_of (ffmpeg_command f out) = Some f"
  by (simp add: ffmpeg_command_def)

lemma spawned_convert_run:
  "spawned (actions (convert_run popen f out)) fs =
     (case popen (ffmpeg_command f out) of
        Inl e \<Rightarrow> []
      | Inr u \<Rightarrow> [(ffmpeg_command f out, fs - {out})])"
  by (simp add: convert_run_def split: sum.splits)

lemma input_missing_convert_run:
  "map input_missing (spawned (actions (convert_run popen f out)) fs) =
     (if raises (popen (ffmpeg_command f out)) then [] else [f = out \<or> f \<notin> fs])"
  by (cases "popen (ffmpeg_command f out)")
    (auto simp: spawned_convert_run input_missing_def)

section \<open>Properties of the worker threads\<close>

text \<open>
  C35 (liveness). \<open>ConvertThread.run\<close> always ends by emitting \<open>finished\<close>, exactly once
  and with no exception left uncaught, whatever \<open>Popen\<close> does. It first removes the
  output file; the process is in the trace exactly when \<open>Popen\<close> returned.
\<close>

theorem convert_run_finishes:
  "count_list (actions (convert_run popen f out)) EmitFinished = 1 \<and>
   last (actions (convert_run popen f out)) = EmitFinished \<and>
   hd (actions (convert_run popen f out)) = RemoveFile out \<and>
   uncaught (convert_run popen f out) = None \<and>
   (StartProcess (ffmpeg_command f out) \<in> set (actions (convert_run popen f out))
      \<longleftrightarrow> \<not> raises (popen (ffmpeg_command f out)))"
  using convert_run_last [of popen f out] convert_run_count [of popen f out]
    convert_run_first [of popen f out]
  by (cases "popen (ffmpeg_command f out)") (simp_all add: convert_run_def)

theorem convert_run_finishes_witness:
  "actions (convert_run (\<lambda>cmd. Inl (External ''ffmpeg not found'')) ''a.mp3'' ''out.wav'')
     = [RemoveFile ''out.wav'', WriteLog (External ''ffmpeg not found''), EmitFinished :: unit action]"
  using convert_run_finishes [of "\<lambda>cmd. Inl (External ''ffmpeg not found'')" "''a.mp3''" "''out.wav''"]
  by (simp add: convert_run_def)

end
