(* ===== verification/Numpy.thy ===== *)
theory Numpy
  imports Prelude
begin

text \<open>
  The numeric part of \<open>DetectorThread\<close> in \<open>src/main/python/main_window.py\<close>: the
  \<open>softmax\<close> method (lines 228-230) and the calls \<open>np.argmax(probs[idx])\<close> of \<open>run\<close>
  (lines 250 and 254). A NumPy array of shape \<open>(T, V)\<close> is a list of \<open>T\<close> rows of length
  \<open>V\<close> (\<open>shape_ok\<close>); floating-point numbers are real numbers, so rounding, overflow and
  NaN are outside the model: that every entry of a softmax row is positive, that a row
  sums to exactly one and that softmax keeps the arg-max of a row are facts of real
  arithmetic (in floating point \<open>exp\<close> can underflow to 0 and rounding can make two
  entries equal). The functions are defined on all lists of rows, also ragged ones; a
  NumPy array is rectangular, which is the case \<open>shape_ok\<close>. \<open>argmax\<close> finds the first index of the largest entry and
  raises \<open>ValueError\<close> on an empty row, as \<open>np.argmax\<close> does; \<open>np_max\<close> is the maximum
  over the whole array and raises \<open>ValueError\<close> on an array without elements.

  The lemmas: \<open>argmax\<close> meets its specification \<open>is_first_max\<close>; it is unchanged by a
  strictly increasing map applied to every entry; \<open>softmax\<close> returns rows of positive
  entries that sum to one, keeps the shape, and keeps the \<open>argmax\<close> of every row.
\<close>

section \<open>Shapes\<close>

definition shape_ok :: "nat \<Rightarrow> nat \<Rightarrow> matrix \<Rightarrow> bool" where
  "shape_ok T V m = (length m = T \<and> list_all (\<lambda>row. length row = V) m)"

section \<open>argmax\<close>

fun argmax_from :: "frame \<Rightarrow> nat \<Rightarrow> nat \<Rightarrow> real \<Rightarrow> nat" where
  "argmax_from [] i best bv = best"
| "argmax_from (x # xs) i best bv =
     (if bv < x then argmax_from xs (Suc i) i x else argmax_from xs (Suc i) best bv)"

definition argmax :: "frame \<Rightarrow> nat result" where
  "argmax row = (case row of [] \<Rightarrow> Inl ValueError | x # xs \<Rightarrow> Inr (argmax_from xs 1 0 x))"

text \<open>The specification: the index of a largest entry, and the first such index.\<close>

definition is_first_max :: "frame \<Rightarrow> nat \<Rightarrow> bool" where
  "is_first_max row i =
     (i < length row \<and> (\<forall>j < length row. row ! j \<le> row ! i) \<and> (\<forall>j < i. row ! j < row ! i))"

section \<open>softmax\<close>

definition np_max :: "matrix \<Rightarrow> real result" where
  "np_max m = (case concat m of [] \<Rightarrow> Inl ValueError | x # xs \<Rightarrow> Inr (fold max xs x))"

definition softmax_row :: "real \<Rightarrow> frame \<Rightarrow> frame" where
  "softmax_row mx row = (let e = map (\<lambda>x. exp (x - mx)) row in map (\<lambda>y. y / sum_list e) e)"

definition softmax :: "matrix \<Rightarrow> matrix result" where
  "softmax logits =
     (case np_max logits of Inl err \<Rightarrow> Inl err | Inr mx \<Rightarrow> Inr (map (softmax_row mx) logits))"

lemmas [py_defs] = argmax_def np_max_def
lemmas [run_defs] = softmax_def softmax_row_def

section \<open>argmax meets its specification\<close>

lemma is_first_max_unique: "is_first_max row i \<Longrightarrow> is_first_max row j \<Longrightarrow> i = j"
  unfolding is_first_max_def by (metis linorder_neqE_nat not_le)

lemma is_first_max_single [simp]: "is_first_max [x] i \<longleftrightarrow> i = 0"
  by (auto simp: is_first_max_def)

lemma is_first_max_snoc_greater:
  assumes "is_first_max pre b" and "pre ! b < x"
  shows "is_first_max (pre @ [x]) (length pre)"
  using assms unfolding is_first_max_def
  by (auto simp: nth_append less_Suc_eq intro: le_less_trans less_imp_le)

lemma is_first_max_snoc_keep:
  assumes "is_first_max pre b" and "\<not> pre ! b < x"
  shows "is_first_max (pre @ [x]) b"
  using assms unfolding is_first_max_def
  by (auto simp: nth_append less_Suc_eq)

lemma argmax_from_first_max:
  "is_first_max pre best \<Longrightarrow> i = length pre \<Longrightarrow> bv = pre ! best \<Longrightarrow>
   is_first_max (pre @ xs) (argmax_from xs i best bv)"
proof (induction xs arbitrary: pre i best bv)
  case Nil
  then show ?case by simp
next
  case (Cons x xs)
  show ?case
  proof (cases "bv < x")
    case True
    with Cons.prems have "is_first_max (pre @ [x]) (length pre)"
      by (simp add: is_first_max_snoc_greater)
    then have "is_first_max ((pre @ [x]) @ xs) (argmax_from xs (Suc i) i x)"
      using Cons.prems by (intro Cons.IH) simp_all
    with True show ?thesis by simp
  next
    case False
    with Cons.prems have "is_first_max (pre @ [x]) best"
      by (simp add: is_first_max_snoc_keep)
    then have "is_first_max ((pre @ [x]) @ xs) (argmax_from xs (Suc i) best bv)"
      using Cons.prems by (intro Cons.IH) (simp_all add: nth_append is_first_max_def)
    with False show ?thesis by simp
  qed
qed

lemma argmax_Inr_first_max: "argmax row = Inr i \<Longrightarrow> is_first_max row i"
  using argmax_from_first_max [of "[hd row]" 0 1 "hd row" "tl row"]
  by (auto simp: argmax_def split: list.splits)

lemma argmax_nonempty: "row \<noteq> [] \<Longrightarrow> \<exists>i. argmax row = Inr i"
  by (cases row) (simp_all add: argmax_def)

lemma argmax_empty [simp]: "argmax [] = Inl ValueError"
  by (simp add: argmax_def)

lemma argmax_raises_iff: "raises (argmax row) \<longleftrightarrow> row = []"
  by (cases row) (simp_all add: argmax_def)

lemma argmax_less_length: "argmax row = Inr i \<Longrightarrow> i < length row"
  by (drule argmax_Inr_first_max) (simp add: is_first_max_def)

section \<open>argmax under a strictly increasing map\<close>

lemma argmax_from_map_mono:
  assumes "strict_mono f"
  shows "argmax_from (map f xs) i best (f bv) = argmax_from xs i best bv"
  using assms by (induction xs arbitrary: i best bv) (simp_all add: strict_mono_less)

lemma argmax_map_mono: "strict_mono f \<Longrightarrow> argmax (map f row) = argmax row"
  by (cases row) (simp_all add: argmax_def argmax_from_map_mono)

section \<open>softmax\<close>

lemma np_max_raises_iff: "raises (np_max m) \<longleftrightarrow> concat m = []"
  by (cases "concat m") (simp_all add: np_max_def del: concat_eq_Nil_conv)

lemma np_max_shape:
  assumes "shape_ok T V m" and "0 < T" and "0 < V"
  shows "\<exists>mx. np_max m = Inr mx"
proof -
  from assms obtain row rest where m: "m = row # rest" and "length row = V"
    by (cases m) (auto simp: shape_ok_def)
  with \<open>0 < V\<close> have "concat m \<noteq> []" by auto
  then show ?thesis by (cases "concat m") (simp_all add: np_max_def)
qed

lemma np_max_zero_size:
  assumes "shape_ok T V m" and "T = 0 \<or> V = 0"
  shows "np_max m = Inl ValueError"
proof -
  from assms have "concat m = []"
    by (auto simp: shape_ok_def list_all_iff)
  then show ?thesis by (simp add: np_max_def del: concat_eq_Nil_conv)
qed

lemma softmax_row_length [simp]: "length (softmax_row mx row) = length row"
  by (simp add: softmax_row_def Let_def)

lemma exp_sum_pos:
  fixes row :: frame
  shows "row \<noteq> [] \<Longrightarrow> 0 < sum_list (map (\<lambda>x. exp (x - mx)) row)"
  by (rule sum_list_pos_real) auto

lemma softmax_row_strict_mono:
  fixes row :: frame
  assumes "row \<noteq> []"
  shows "strict_mono (\<lambda>x. exp (x - mx) / sum_list (map (\<lambda>x. exp (x - mx)) row))"
  using exp_sum_pos [OF assms, of mx]
  by (auto simp: strict_mono_def divide_strict_right_mono)

lemma softmax_row_as_map:
  "softmax_row mx row =
     map (\<lambda>x. exp (x - mx) / sum_list (map (\<lambda>x. exp (x - mx)) row)) row"
  by (simp add: softmax_row_def Let_def)

lemma argmax_softmax_row: "argmax (softmax_row mx row) = argmax row"
proof (cases "row = []")
  case True
  then show ?thesis by (simp add: softmax_row_def)
next
  case False
  then show ?thesis
    unfolding softmax_row_as_map by (intro argmax_map_mono softmax_row_strict_mono)
qed

lemma softmax_row_sum: "row \<noteq> [] \<Longrightarrow> sum_list (softmax_row mx row) = 1"
  using exp_sum_pos [of row mx]
  by (simp add: softmax_row_def Let_def sum_list_divide_const del: map_map)

lemma softmax_row_pos: "row \<noteq> [] \<Longrightarrow> p \<in> set (softmax_row mx row) \<Longrightarrow> 0 < p"
  using exp_sum_pos [of row mx]
  by (auto simp: softmax_row_def Let_def)

lemma softmax_Inr_map: "softmax logits = Inr probs \<Longrightarrow> \<exists>mx. probs = map (softmax_row mx) logits"
  by (auto simp: softmax_def split: sum.splits)

lemma softmax_shape:
  assumes "shape_ok T V logits" and "softmax logits = Inr probs"
  shows "shape_ok T V probs"
  using assms softmax_Inr_map [OF assms(2)]
  by (auto simp: shape_ok_def list_all_iff)

lemma softmax_raises_iff: "raises (softmax logits) \<longleftrightarrow> concat logits = []"
  using np_max_raises_iff [of logits] by (cases "np_max logits") (simp_all add: softmax_def)

lemma shape_ok_concat_Nil_iff: "shape_ok T V m \<Longrightarrow> concat m = [] \<longleftrightarrow> T = 0 \<or> V = 0"
  by (cases m) (auto simp: shape_ok_def list_all_iff)

lemma nonneg_member_le_sum_list:
  fixes xs :: "real list"
  shows "\<forall>x \<in> set xs. 0 \<le> x \<Longrightarrow> p \<in> set xs \<Longrightarrow> p \<le> sum_list xs"
  by (induction xs) (auto simp: sum_list_nonneg add_increasing add_increasing2)

section \<open>Properties\<close>

text \<open>
  C29 (functional). \<open>argmax\<close> returns index \<open>i\<close> exactly when \<open>i\<close> is the first index of a
  largest entry of the row: no entry is larger than entry \<open>i\<close> and every entry before
  \<open>i\<close> is strictly smaller. Ties are resolved towards the lowest index, as \<open>np.argmax\<close>
  does.
\<close>

theorem argmax_first_max: "argmax row = Inr i \<longleftrightarrow> is_first_max row i"
proof
  assume "argmax row = Inr i"
  then show "is_first_max row i" by (rule argmax_Inr_first_max)
next
  assume i: "is_first_max row i"
  then have "row \<noteq> []" by (auto simp: is_first_max_def)
  then obtain j where j: "argmax row = Inr j" using argmax_nonempty by blast
  with i is_first_max_unique [OF argmax_Inr_first_max [OF j] i] show "argmax row = Inr i"
    by simp
qed

theorem argmax_first_max_witness:
  "argmax [0.1, 0.7, 0.7, 0.2] = Inr 1 \<and> is_first_max [0.1, 0.7, 0.7, 0.2] 1"
  using argmax_first_max [of "[0.1, 0.7, 0.7, 0.2]" 1] by (simp add: argmax_def)

text \<open>
  C28 (bounds). Every non-empty row of the matrix \<open>softmax\<close> returns is a probability
  distribution: its entries are positive, at most one, and sum to one. The division by
  the row sum is never a division by zero.
\<close>

theorem softmax_rows_distribution:
  assumes "softmax logits = Inr probs" and "row \<in> set probs" and "row \<noteq> []"
  shows "sum_list row = 1 \<and> (\<forall>p \<in> set row. 0 < p \<and> p \<le> 1)"
proof -
  from softmax_Inr_map [OF assms(1)] assms(2) obtain mx r
    where row: "row = softmax_row mx r" by auto
  with assms(3) have r: "r \<noteq> []" by (auto simp: softmax_row_def)
  then have s: "sum_list row = 1" and pos: "\<forall>p \<in> set row. 0 < p"
    unfolding row by (auto simp: softmax_row_sum softmax_row_pos)
  from pos have "\<forall>p \<in> set row. 0 \<le> p" by (auto intro: less_imp_le)
  then have "\<forall>p \<in> set row. p \<le> sum_list row"
    by (auto intro: nonneg_member_le_sum_list)
  with s pos show ?thesis by simp
qed

theorem softmax_rows_distribution_witness:
  "sum_list (softmax_row 3 [1, 3]) = 1 \<and>
   0 < softmax_row 3 [1, 3] ! 0 \<and> softmax_row 3 [1, 3] ! 0 \<le> 1 \<and>
   0 < softmax_row 3 [1, 3] ! 1 \<and> softmax_row 3 [1, 3] ! 1 \<le> 1"
  using softmax_rows_distribution [of "[[1, 3]]" "[softmax_row 3 [1, 3]]" "softmax_row 3 [1, 3]"]
  by (simp add: softmax_def np_max_def softmax_row_def)

text \<open>
  C30 (error). On an array of shape \<open>(T, V)\<close>, \<open>softmax\<close> raises (the \<open>ValueError\<close> of
  \<open>np.max\<close> on an array without elements) exactly when \<open>T = 0\<close> or \<open>V = 0\<close>; otherwise it
  returns an array of the same shape.
\<close>

theorem softmax_outcome:
  assumes "shape_ok T V logits"
  shows "(softmax logits = Inl ValueError \<longleftrightarrow> T = 0 \<or> V = 0)
       \<and> (T \<noteq> 0 \<and> V \<noteq> 0 \<longrightarrow> (\<exists>probs. softmax logits = Inr probs \<and> shape_ok T V probs))"
proof (cases "T = 0 \<or> V = 0")
  case True
  with np_max_zero_size [OF assms] show ?thesis by (auto simp: softmax_def)
next
  case False
  with np_max_shape [OF assms] obtain mx where "np_max logits = Inr mx" by auto
  then have "softmax logits = Inr (map (softmax_row mx) logits)" by (simp add: softmax_def)
  with False softmax_shape [OF assms this] show ?thesis by auto
qed

theorem softmax_outcome_witness:
  "softmax [[], []] = Inl ValueError \<and> (\<exists>probs. softmax [[1, 3]] = Inr probs \<and> shape_ok 1 2 probs)"
  using softmax_outcome [of 2 0 "[[], []]"] softmax_outcome [of 1 2 "[[1, 3]]"]
  by (simp add: shape_ok_def)

end
