(* ===== verification/Segmenter.thy ===== *)
theory Segmenter
  imports Numpy
begin

text \<open>
  The segmenter of \<open>DetectorThread.run\<close> (\<open>src/main/python/main_window.py\<close>, lines
  244-268): one pass over the rows of the emission matrix that collects the index ranges
  of the frames classified as inter-word space.

  The loop's variables \<open>state\<close>, \<open>idx_state\<close> and \<open>spaces\<close> are the record \<open>seg_state\<close>
  (\<open>state == "space"\<close> is \<open>Space\<close>, \<open>state == ""\<close> is \<open>NonSpace\<close>); \<open>seg_init\<close> is the
  test of frame 0, \<open>seg_step\<close> the body of the \<open>for\<close> loop with its two consecutive
  \<open>if\<close> statements, \<open>seg_loop\<close> the loop over \<open>range(1, probs.shape[0])\<close>, \<open>seg_finish\<close>
  the statement after the loop, and \<open>segment\<close> their composition. The symbol indices 0
  (space) and 28 (blank) are the literals of the source.

  The reference semantics is the two-state automaton \<open>silent\<close> over the sequence of
  frame classes. The lemmas show that the intervals returned cover exactly the frames
  on which the automaton is in its silent state, that they lie inside the matrix, are
  sorted and separated by at least one frame, and when the segmenter raises.
\<close>

section \<open>State and operations\<close>

datatype seg_mode = NonSpace | Space

record seg_state =
  state :: seg_mode
  idx_state :: nat
  spaces :: "interval list"

definition seg_start :: "nat \<Rightarrow> seg_state" where
  "seg_start c = \<lparr>state = (if c = 0 then Space else NonSpace), idx_state = 0, spaces = []\<rparr>"

definition seg_init :: "matrix \<Rightarrow> seg_state result" where
  "seg_init probs =
     and_then (py_nth probs 0) (\<lambda>row. and_then (argmax row) (\<lambda>c. Inr (seg_start c)))"

definition seg_step :: "nat \<Rightarrow> nat \<Rightarrow> seg_state \<Rightarrow> seg_state" where
  "seg_step idx current_char_idx s =
     (let s1 = (if state s = Space \<and> current_char_idx \<noteq> 0 \<and> current_char_idx \<noteq> 28
                then s\<lparr>spaces := spaces s @ [(idx_state s, idx - 1)], state := NonSpace\<rparr>
                else s)
      in if state s1 = NonSpace
         then (if current_char_idx = 0 then s1\<lparr>state := Space, idx_state := idx\<rparr> else s1)
         else s1)"

fun seg_loop :: "matrix \<Rightarrow> nat list \<Rightarrow> seg_state \<Rightarrow> seg_state result" where
  "seg_loop probs [] s = Inr s"
| "seg_loop probs (idx # idxs) s =
     and_then (py_nth probs idx) (\<lambda>row.
     and_then (argmax row) (\<lambda>current_char_idx.
       seg_loop probs idxs (seg_step idx current_char_idx s)))"

definition seg_finish :: "nat \<Rightarrow> seg_state \<Rightarrow> interval list" where
  "seg_finish n s = (if state s = Space then spaces s @ [(idx_state s, n - 1)] else spaces s)"

definition segment :: "matrix \<Rightarrow> interval list result" where
  "segment probs =
     and_then (seg_init probs) (\<lambda>s0.
     and_then (seg_loop probs [1..<length probs] s0) (\<lambda>s.
       Inr (seg_finish (length probs) s)))"

lemmas [run_defs] = seg_start_def seg_init_def seg_step_def seg_finish_def segment_def

section \<open>The same pass over the sequence of frame classes\<close>

text \<open>
  \<open>frame_class\<close> is the class of a row whose \<open>argmax\<close> exists; \<open>seg_run cs k\<close> is the
  loop state after the first \<open>k\<close> frames of the class sequence \<open>cs\<close>, and
  \<open>seg_classes\<close> the intervals for the whole sequence. On a matrix without empty rows
  \<open>segment\<close> is \<open>seg_classes\<close> of its classes (\<open>segment_classes\<close> below), so the
  properties are proved once, for \<open>seg_classes\<close>.
\<close>

definition frame_class :: "frame \<Rightarrow> nat" where
  "frame_class row = (case argmax row of Inl _ \<Rightarrow> 0 | Inr c \<Rightarrow> c)"

definition seg_run :: "nat list \<Rightarrow> nat \<Rightarrow> seg_state" where
  "seg_run cs k = fold (\<lambda>idx. seg_step idx (cs ! idx)) [1..<k] (seg_start (cs ! 0))"

definition seg_classes :: "nat list \<Rightarrow> interval list" where
  "seg_classes cs = (if cs = [] then [] else seg_finish (length cs) (seg_run cs (length cs)))"

section \<open>The reference automaton and the shape of a result\<close>

fun silent :: "nat list \<Rightarrow> nat \<Rightarrow> bool" where
  "silent cs 0 = (cs ! 0 = 0)"
| "silent cs (Suc i) = (cs ! Suc i = 0 \<or> (silent cs i \<and> cs ! Suc i = 28))"

definition covered :: "interval list \<Rightarrow> nat \<Rightarrow> bool" where
  "covered ivs i = list_ex (\<lambda>(a, b). a \<le> i \<and> i \<le> b) ivs"

definition separated :: "interval \<Rightarrow> interval \<Rightarrow> bool" where
  "separated p q = (Suc (snd p) < fst q)"

definition intervals_ok :: "nat \<Rightarrow> interval list \<Rightarrow> bool" where
  "intervals_ok n ivs =
     (list_all (\<lambda>(a, b). a \<le> b \<and> b < n) ivs \<and> sorted_wrt separated ivs)"

text \<open>
  The loop invariant after \<open>k\<close> frames: the closed intervals end at least two frames
  before \<open>k\<close> and are separated; an open run starts after all of them; and the frames
  seen so far on which the automaton is silent are the covered ones and those of the
  open run.
\<close>

definition seg_inv :: "nat list \<Rightarrow> nat \<Rightarrow> seg_state \<Rightarrow> bool" where
  "seg_inv cs k s \<longleftrightarrow>
     list_all (\<lambda>(a, b). a \<le> b \<and> Suc b < k) (spaces s) \<and>
     sorted_wrt separated (spaces s) \<and>
     (state s = Space \<longrightarrow> idx_state s < k \<and> list_all (\<lambda>(a, b). Suc b < idx_state s) (spaces s)) \<and>
     (\<forall>i<k. silent cs i \<longleftrightarrow> covered (spaces s) i \<or> (state s = Space \<and> idx_state s \<le> i))"

section \<open>One step, case by case\<close>

lemma seg_step_close:
  "state s = Space \<Longrightarrow> c \<noteq> 0 \<Longrightarrow> c \<noteq> 28 \<Longrightarrow>
   seg_step idx c s = s\<lparr>spaces := spaces s @ [(idx_state s, idx - 1)], state := NonSpace\<rparr>"
  by (simp add: seg_step_def)

lemma seg_step_stay_space:
  "state s = Space \<Longrightarrow> c = 0 \<or> c = 28 \<Longrightarrow> seg_step idx c s = s"
  by (auto simp: seg_step_def)

lemma seg_step_open:
  "state s = NonSpace \<Longrightarrow> c = 0 \<Longrightarrow> seg_step idx c s = s\<lparr>state := Space, idx_state := idx\<rparr>"
  by (simp add: seg_step_def)

lemma seg_step_stay_nonspace:
  "state s = NonSpace \<Longrightarrow> c \<noteq> 0 \<Longrightarrow> seg_step idx c s = s"
  by (simp add: seg_step_def)

lemmas seg_step_cases =
  seg_step_close seg_step_stay_space seg_step_open seg_step_stay_nonspace

lemma seg_step_state:
  "state (seg_step idx c s) = Space \<longleftrightarrow> c = 0 \<or> (state s = Space \<and> c = 28)"
  by (cases "state s") (auto simp: seg_step_def)

lemma seg_mode_not_Space [simp]: "m \<noteq> Space \<longleftrightarrow> m = NonSpace"
  by (cases m) simp_all

section \<open>The loop invariant\<close>

lemma covered_Nil [simp]: "\<not> covered [] i"
  by (simp add: covered_def)

lemma covered_append [simp]: "covered (xs @ ys) i \<longleftrightarrow> covered xs i \<or> covered ys i"
  by (auto simp: covered_def list_ex_iff)

lemma covered_single [simp]: "covered [(a, b)] i \<longleftrightarrow> a \<le> i \<and> i \<le> b"
  by (simp add: covered_def)

lemma covered_bound:
  "list_all (\<lambda>(a, b). a \<le> b \<and> Suc b < k) ivs \<Longrightarrow> covered ivs i \<Longrightarrow> Suc i < k"
  by (auto simp: covered_def list_all_iff list_ex_iff)

lemma seg_inv_not_covered: "seg_inv cs k s \<Longrightarrow> k \<le> Suc i \<Longrightarrow> \<not> covered (spaces s) i"
  by (auto simp: seg_inv_def dest: covered_bound)

lemma seg_inv_silent_last:
  "seg_inv cs k s \<Longrightarrow> 0 < k \<Longrightarrow> silent cs (k - Suc 0) \<longleftrightarrow> state s = Space"
  using seg_inv_not_covered [of cs k s "k - Suc 0"] by (auto simp: seg_inv_def)

lemma silent_step:
  "0 < k \<Longrightarrow> silent cs k \<longleftrightarrow> cs ! k = 0 \<or> (silent cs (k - Suc 0) \<and> cs ! k = 28)"
  by (cases k) auto

lemma seg_inv_start: "seg_inv cs (Suc 0) (seg_start (cs ! 0))"
  by (simp add: seg_inv_def seg_start_def)

lemma seg_inv_close:
  assumes "seg_inv cs k s" "0 < k" "state s = Space" "cs ! k \<noteq> 0" "cs ! k \<noteq> 28"
  shows "seg_inv cs (Suc k) (s\<lparr>spaces := spaces s @ [(idx_state s, k - 1)], state := NonSpace\<rparr>)"
proof -
  have "\<not> silent cs k" using assms by (simp add: silent_step)
  moreover have "\<not> covered (spaces s) k" using assms by (simp add: seg_inv_not_covered)
  ultimately show ?thesis using assms
    by (auto simp: seg_inv_def less_Suc_eq sorted_wrt_append separated_def list_all_iff)
qed

lemma seg_inv_stay_space:
  assumes "seg_inv cs k s" "0 < k" "state s = Space" "cs ! k = 0 \<or> cs ! k = 28"
  shows "seg_inv cs (Suc k) s"
proof -
  have "silent cs k" using assms by (auto simp: silent_step seg_inv_silent_last)
  then show ?thesis using assms
    by (auto simp: seg_inv_def less_Suc_eq list_all_iff)
qed

lemma seg_inv_open:
  assumes "seg_inv cs k s" "0 < k" "state s = NonSpace" "cs ! k = 0"
  shows "seg_inv cs (Suc k) (s\<lparr>state := Space, idx_state := k\<rparr>)"
proof -
  have "silent cs k" using assms by (simp add: silent_step)
  moreover have "\<And>i. covered (spaces s) i \<Longrightarrow> i < k"
    using assms seg_inv_not_covered [of cs k s] by (metis not_less le_SucI)
  ultimately show ?thesis using assms
    by (auto simp: seg_inv_def less_Suc_eq list_all_iff)
qed

lemma seg_inv_stay_nonspace:
  assumes "seg_inv cs k s" "0 < k" "state s = NonSpace" "cs ! k \<noteq> 0"
  shows "seg_inv cs (Suc k) s"
proof -
  have "\<not> silent cs k" using assms by (auto simp: silent_step seg_inv_silent_last)
  moreover have "\<not> covered (spaces s) k" using assms by (simp add: seg_inv_not_covered)
  ultimately show ?thesis using assms
    by (auto simp: seg_inv_def less_Suc_eq list_all_iff)
qed

lemma seg_step_inv:
  assumes "seg_inv cs k s" "0 < k"
  shows "seg_inv cs (Suc k) (seg_step k (cs ! k) s)"
proof (cases "state s")
  case NonSpace
  show ?thesis
  proof (cases "cs ! k = 0")
    case True
    with seg_inv_open [OF assms NonSpace] seg_step_open [OF NonSpace, of "cs ! k" k]
    show ?thesis by simp
  next
    case False
    with seg_inv_stay_nonspace [OF assms NonSpace] seg_step_stay_nonspace [OF NonSpace, of "cs ! k" k]
    show ?thesis by simp
  qed
next
  case Space
  show ?thesis
  proof (cases "cs ! k = 0 \<or> cs ! k = 28")
    case True
    with seg_inv_stay_space [OF assms Space] seg_step_stay_space [OF Space, of "cs ! k" k]
    show ?thesis by simp
  next
    case False
    with seg_inv_close [OF assms Space] seg_step_close [OF Space, of "cs ! k" k]
    show ?thesis by simp
  qed
qed

section \<open>The loop state after k frames\<close>

lemma seg_run_1 [simp]: "seg_run cs (Suc 0) = seg_start (cs ! 0)"
  by (simp add: seg_run_def)

lemma seg_run_Suc: "0 < k \<Longrightarrow> seg_run cs (Suc k) = seg_step k (cs ! k) (seg_run cs k)"
  by (simp add: seg_run_def)

lemma seg_run_state: "0 < k \<Longrightarrow> state (seg_run cs k) = Space \<longleftrightarrow> silent cs (k - 1)"
proof (induction k)
  case 0
  then show ?case by simp
next
  case (Suc k)
  show ?case
  proof (cases "k = 0")
    case True
    then show ?thesis by (simp add: seg_start_def)
  next
    case False
    then obtain j where k: "k = Suc j" by (cases k) auto
    with Suc.IH have "state (seg_run cs k) = Space \<longleftrightarrow> silent cs j" by simp
    with k show ?thesis by (simp add: seg_run_Suc seg_step_state)
  qed
qed

lemma seg_run_inv: "0 < k \<Longrightarrow> seg_inv cs k (seg_run cs k)"
proof (induction k)
  case 0
  then show ?case by simp
next
  case (Suc k)
  then show ?case
    by (cases "k = 0") (simp_all add: seg_inv_start seg_run_Suc seg_step_inv)
qed

section \<open>The intervals of a class sequence\<close>

lemma seg_finish_ok:
  assumes "seg_inv cs k s" "0 < k"
  shows "intervals_ok k (seg_finish k s)"
  using assms
  by (auto simp: seg_inv_def seg_finish_def intervals_ok_def list_all_iff
      sorted_wrt_append separated_def)

lemma seg_finish_covered:
  assumes "seg_inv cs k s" "0 < k" "i < k"
  shows "covered (seg_finish k s) i \<longleftrightarrow> silent cs i"
  using assms by (auto simp: seg_inv_def seg_finish_def)

lemma seg_classes_ok: "intervals_ok (length cs) (seg_classes cs)"
proof (cases "cs = []")
  case True
  then show ?thesis by (simp add: seg_classes_def intervals_ok_def)
next
  case False
  then have "0 < length cs" by simp
  from seg_finish_ok [OF seg_run_inv [OF this] this] False show ?thesis
    by (simp add: seg_classes_def)
qed

lemma seg_classes_covered_silent:
  assumes "i < length cs"
  shows "covered (seg_classes cs) i \<longleftrightarrow> silent cs i"
proof -
  from assms have pos: "0 < length cs" and ne: "cs \<noteq> []" by auto
  from seg_finish_covered [OF seg_run_inv [OF pos] pos assms] ne show ?thesis
    by (simp add: seg_classes_def)
qed

lemma intervals_ok_covered_less: "intervals_ok n ivs \<Longrightarrow> covered ivs i \<Longrightarrow> i < n"
  by (auto simp: intervals_ok_def covered_def list_all_iff list_ex_iff)

lemma intervals_ok_member:
  "intervals_ok n ivs \<Longrightarrow> (a, b) \<in> set ivs \<Longrightarrow> a \<le> b \<and> b < n"
  by (auto simp: intervals_ok_def list_all_iff)

lemma covered_member: "(a, b) \<in> set ivs \<Longrightarrow> a \<le> i \<Longrightarrow> i \<le> b \<Longrightarrow> covered ivs i"
  by (auto simp: covered_def list_ex_iff)

lemma intervals_ok_gap_after:
  assumes "intervals_ok n ivs" "(a, b) \<in> set ivs"
  shows "\<not> covered ivs (Suc b)"
proof
  assume "covered ivs (Suc b)"
  then obtain c d where cd: "(c, d) \<in> set ivs" "c \<le> Suc b" "Suc b \<le> d"
    by (auto simp: covered_def list_ex_iff)
  from assms cd(1) have "(a, b) = (c, d) \<or> separated (a, b) (c, d) \<or> separated (c, d) (a, b)"
    by (intro sorted_wrt_cases [of separated ivs]) (simp_all add: intervals_ok_def)
  with cd intervals_ok_member [OF assms] show False
    by (auto simp: separated_def)
qed

lemma intervals_ok_gap_before:
  assumes "intervals_ok n ivs" "(a, b) \<in> set ivs" "0 < a"
  shows "\<not> covered ivs (a - 1)"
proof
  assume "covered ivs (a - 1)"
  then obtain c d where cd: "(c, d) \<in> set ivs" "c \<le> a - 1" "a - 1 \<le> d"
    by (auto simp: covered_def list_ex_iff)
  from assms cd(1) have "(a, b) = (c, d) \<or> separated (a, b) (c, d) \<or> separated (c, d) (a, b)"
    by (intro sorted_wrt_cases [of separated ivs]) (simp_all add: intervals_ok_def)
  with cd intervals_ok_member [OF assms(1,2)] assms(3) show False
    by (auto simp: separated_def)
qed

lemma seg_classes_maximal_run:
  assumes "(a, b) \<in> set (seg_classes cs)"
  shows "a \<le> b \<and> b < length cs
       \<and> (\<forall>i. a \<le> i \<and> i \<le> b \<longrightarrow> silent cs i)
       \<and> (0 < a \<longrightarrow> \<not> silent cs (a - 1))
       \<and> (Suc b < length cs \<longrightarrow> \<not> silent cs (Suc b))"
proof -
  note ok = seg_classes_ok [of cs]
  from intervals_ok_member [OF ok assms] have ab: "a \<le> b" "b < length cs" by simp_all
  have "silent cs i" if "a \<le> i" "i \<le> b" for i
    using that ab covered_member [OF assms that] seg_classes_covered_silent [of i cs] by simp
  moreover have "\<not> silent cs (a - 1)" if "0 < a"
    using that ab intervals_ok_gap_before [OF ok assms that]
      seg_classes_covered_silent [of "a - 1" cs] by simp
  moreover have "\<not> silent cs (Suc b)" if "Suc b < length cs"
    using that intervals_ok_gap_after [OF ok assms]
      seg_classes_covered_silent [of "Suc b" cs] by blast
  ultimately show ?thesis using ab by blast
qed

lemma seg_classes_starts_with_space:
  assumes "(a, b) \<in> set (seg_classes cs)"
  shows "cs ! a = 0"
proof (cases a)
  case 0
  with seg_classes_maximal_run [OF assms] show ?thesis by auto
next
  case (Suc j)
  with seg_classes_maximal_run [OF assms] have "silent cs (Suc j)" "\<not> silent cs j" by auto
  with Suc show ?thesis by auto
qed

lemma seg_run_all_space:
  assumes "cs ! 0 = 0" "\<forall>i < length cs. cs ! i = 0 \<or> cs ! i = 28" "0 < k" "k \<le> length cs"
  shows "seg_run cs k = \<lparr>state = Space, idx_state = 0, spaces = []\<rparr>"
  using assms(3,4)
proof (induction k)
  case 0
  then show ?case by simp
next
  case (Suc k)
  show ?case
  proof (cases "k = 0")
    case True
    with assms(1) show ?thesis by (simp add: seg_start_def)
  next
    case False
    with Suc assms(2) show ?thesis
      by (simp add: seg_run_Suc seg_step_stay_space)
  qed
qed

lemma seg_run_no_space:
  assumes "\<forall>i < length cs. cs ! i \<noteq> 0" "0 < k" "k \<le> length cs"
  shows "seg_run cs k = \<lparr>state = NonSpace, idx_state = 0, spaces = []\<rparr>"
  using assms(2,3)
proof (induction k)
  case 0
  then show ?case by simp
next
  case (Suc k)
  show ?case
  proof (cases "k = 0")
    case True
    from Suc.prems have "0 < length cs" by linarith
    with assms(1) have "cs ! 0 \<noteq> 0" by blast
    with True show ?thesis by (simp add: seg_start_def)
  next
    case False
    with Suc assms(1) show ?thesis
      by (simp add: seg_run_Suc seg_step_stay_nonspace)
  qed
qed

lemma seg_classes_all_space:
  assumes "cs \<noteq> []" "cs ! 0 = 0" "\<forall>i < length cs. cs ! i = 0 \<or> cs ! i = 28"
  shows "seg_classes cs = [(0, length cs - 1)]"
  using assms seg_run_all_space [of cs "length cs"]
  by (simp add: seg_classes_def seg_finish_def)

lemma seg_classes_no_space:
  assumes "\<forall>i < length cs. cs ! i \<noteq> 0"
  shows "seg_classes cs = []"
  using assms seg_run_no_space [of cs "length cs"]
  by (cases "cs = []") (simp_all add: seg_classes_def seg_finish_def)

lemma seg_loop_fold:
  assumes "\<forall>idx \<in> set idxs. idx < length probs"
  shows "seg_loop probs idxs s =
     (if [] \<in> set (map ((!) probs) idxs) then Inl ValueError
      else Inr (fold (\<lambda>idx. seg_step idx (frame_class (probs ! idx))) idxs s))"
  using assms
proof (induction idxs arbitrary: s)
  case Nil
  then show ?case by simp
next
  case (Cons idx idxs)
  show ?case
  proof (cases "probs ! idx = []")
    case True
    with Cons.prems show ?thesis by simp
  next
    case False
    then obtain c where c: "argmax (probs ! idx) = Inr c" using argmax_nonempty by blast
    then have "frame_class (probs ! idx) = c" by (simp add: frame_class_def)
    with c False Cons show ?thesis by auto
  qed
qed

lemma seg_run_map_frame_class:
  "k \<le> length probs \<Longrightarrow>
   fold (\<lambda>idx. seg_step idx (frame_class (probs ! idx))) [1..<k] s =
   fold (\<lambda>idx. seg_step idx (map frame_class probs ! idx)) [1..<k] s"
  by (rule fold_cong) auto

lemma segment_result:
  "segment probs =
     (if probs = [] then Inl IndexError
      else if [] \<in> set probs then Inl ValueError
      else Inr (seg_classes (map frame_class probs)))"
proof (cases probs)
  case Nil
  then show ?thesis by (simp add: segment_def seg_init_def)
next
  case (Cons row rest)
  show ?thesis
  proof (cases "row = []")
    case True
    with Cons show ?thesis by (simp add: segment_def seg_init_def)
  next
    case False
    then obtain c where c: "argmax row = Inr c" using argmax_nonempty by blast
    then have fc: "frame_class row = c" by (simp add: frame_class_def)
    have loop: "seg_loop probs [1..<length probs] s =
       (if [] \<in> set rest then Inl ValueError
        else Inr (fold (\<lambda>idx. seg_step idx (map frame_class probs ! idx)) [1..<length probs] s))" for s
    proof -
      have idx: "\<forall>idx \<in> set [1..<length probs]. idx < length probs" by simp
      have mem: "([] \<in> set (map ((!) probs) [1..<length probs])) = ([] \<in> set rest)"
        unfolding Cons using map_nth_tl [of row rest] by (simp del: upt_Suc)
      show ?thesis
        by (simp only: seg_loop_fold [OF idx] seg_run_map_frame_class [OF le_refl] mem)
    qed
    have init: "seg_init probs = Inr (seg_start c)"
      using Cons c by (simp add: seg_init_def)
    have hd: "map frame_class probs ! 0 = c" and ne: "probs \<noteq> []"
      and mem: "([] \<in> set probs) = ([] \<in> set rest)"
      using Cons False fc by auto
    show ?thesis
      unfolding segment_def init and_then_simps loop
      by (simp add: seg_classes_def seg_run_def hd ne mem)
  qed
qed

section \<open>Softmax does not change the segmentation\<close>

lemma frame_class_softmax_row [simp]: "frame_class (softmax_row mx row) = frame_class row"
  by (simp add: frame_class_def argmax_softmax_row)

lemma softmax_row_Nil_iff [simp]:
  "softmax_row mx row = [] \<longleftrightarrow> row = []" "[] = softmax_row mx row \<longleftrightarrow> row = []"
  by (auto simp: softmax_row_def Let_def)

lemma segment_softmax_rows: "segment (map (softmax_row mx) logits) = segment logits"
proof -
  have "([] \<in> set (map (softmax_row mx) logits)) = ([] \<in> set logits)"
    by (auto simp: image_iff)
  then show ?thesis
    unfolding segment_result by (simp add: comp_def)
qed

lemma segment_softmax_eq: "softmax logits = Inr probs \<Longrightarrow> segment probs = segment logits"
  by (auto dest: softmax_Inr_map simp: segment_softmax_rows)

section \<open>Properties of \<open>segment\<close>\<close>

lemma segment_Inr_classes:
  "segment probs = Inr ivs \<Longrightarrow> ivs = seg_classes (map frame_class probs) \<and> probs \<noteq> []"
  by (auto simp: segment_result split: if_splits)

lemma segment_intervals_wf: "segment probs = Inr ivs \<Longrightarrow> intervals_ok (length probs) ivs"
  using seg_classes_ok [of "map frame_class probs"] by (auto dest: segment_Inr_classes)

lemma frame_class_argmax: "argmax row = Inr c \<Longrightarrow> frame_class row = c"
  by (simp add: frame_class_def)

lemma argmax_Inr_nonempty: "argmax row = Inr c \<Longrightarrow> row \<noteq> []"
  by (auto simp: argmax_def)

text \<open>
  C1 (refinement). Whenever \<open>segment\<close> returns, the frames covered by the returned
  intervals are exactly the frames on which the reference automaton \<open>silent\<close>, run over
  the arg-max classes of the rows, is in its silent state: a space frame (class 0)
  enters or continues silence, a blank frame (class 28) continues it, any other frame
  leaves it.
\<close>

theorem segment_refines_silent:
  assumes "segment probs = Inr ivs" and "i < length probs"
  shows "covered ivs i \<longleftrightarrow> silent (map frame_class probs) i"
  using assms segment_Inr_classes [OF assms(1)]
  by (simp add: seg_classes_covered_silent)

theorem segment_refines_silent_witness:
  "segment [[0.9, 0.1],
            [0, 0, 0, 0, 0, 0, 0, 0, 0, 0, 0, 0, 0, 0, 0, 0, 0, 0, 0, 0, 0, 0, 0, 0, 0, 0, 0, 0, 1],
            [0.2, 0.8]] = Inr [(0, 1)] \<and>
   (covered [(0, 1)] 1 \<longleftrightarrow>
    silent (map frame_class [[0.9, 0.1],
            [0, 0, 0, 0, 0, 0, 0, 0, 0, 0, 0, 0, 0, 0, 0, 0, 0, 0, 0, 0, 0, 0, 0, 0, 0, 0, 0, 0, 1],
            [0.2, 0.8]]) 1)"
  using segment_refines_silent [of "[[0.9, 0.1],
            [0, 0, 0, 0, 0, 0, 0, 0, 0, 0, 0, 0, 0, 0, 0, 0, 0, 0, 0, 0, 0, 0, 0, 0, 0, 0, 0, 0, 1],
            [0.2, 0.8]]" "[(0, 1)]" 1]
  by (simp add: run_defs py_defs upt_rec)

text \<open>
  C4 (invariant). The intervals \<open>segment\<close> returns are well formed: each one is
  non-empty and lies inside the matrix (\<open>start \<le> end < T\<close>), and consecutive intervals
  are in ascending order with at least one uncovered frame between them, so they never
  overlap or touch.
\<close>

theorem segment_intervals_ok:
  assumes "segment probs = Inr ivs"
  shows "intervals_ok (length probs) ivs"
  using segment_Inr_classes [OF assms] seg_classes_ok [of "map frame_class probs"]
  by simp

theorem segment_intervals_ok_witness:
  "segment [[0.9, 0.1], [0.2, 0.8], [0.7, 0.3]] = Inr [(0, 0), (2, 2)] \<and>
   intervals_ok 3 [(0, 0), (2, 2)]"
  using segment_intervals_ok [of "[[0.9, 0.1], [0.2, 0.8], [0.7, 0.3]]" "[(0, 0), (2, 2)]"]
  by (simp add: run_defs py_defs upt_rec numeral_3_eq_3)

text \<open>
  C8 (error). The outcome of \<open>segment\<close> on every input: \<open>IndexError\<close> (from
  \<open>probs[0]\<close>) on a matrix without rows, \<open>ValueError\<close> (from \<open>np.argmax\<close>) when some row
  is empty, and otherwise the intervals of the class sequence; it never fails on a
  matrix with at least one row and one column.
\<close>

theorem segment_outcome:
  "segment probs =
     (if probs = [] then Inl IndexError
      else if [] \<in> set probs then Inl ValueError
      else Inr (seg_classes (map frame_class probs)))"
  by (rule segment_result)

theorem segment_outcome_witness:
  "segment [] = Inl IndexError \<and> segment [[0.9, 0.1], []] = Inl ValueError
   \<and> segment [[0.9, 0.1]] = Inr (seg_classes [0])"
  using segment_outcome [of "[]"] segment_outcome [of "[[0.9, 0.1], []]"]
    segment_outcome [of "[[0.9, 0.1]]"]
  by (simp add: frame_class_def py_defs)

text \<open>
  C11 (functional). Each returned interval is a maximal run of silence: the automaton is
  silent on every frame of the interval, the interval starts on a space frame (class
  0), the frame before it (if any) is not silent, and the frame after it (if any) is
  neither space nor blank.
\<close>

theorem segment_maximal_runs:
  assumes "segment probs = Inr ivs" and "(a, b) \<in> set ivs"
  shows "frame_class (probs ! a) = 0
       \<and> (\<forall>i. a \<le> i \<and> i \<le> b \<longrightarrow> silent (map frame_class probs) i)
       \<and> (0 < a \<longrightarrow> \<not> silent (map frame_class probs) (a - 1))
       \<and> (Suc b < length probs \<longrightarrow>
            frame_class (probs ! Suc b) \<noteq> 0 \<and> frame_class (probs ! Suc b) \<noteq> 28)"
proof -
  let ?cs = "map frame_class probs"
  from segment_Inr_classes [OF assms(1)] assms(2) have mem: "(a, b) \<in> set (seg_classes ?cs)"
    by simp
  note run = seg_classes_maximal_run [OF mem]
  from run have "a < length probs" by simp
  with seg_classes_starts_with_space [OF mem] have "frame_class (probs ! a) = 0" by simp
  moreover have "frame_class (probs ! Suc b) \<noteq> 0 \<and> frame_class (probs ! Suc b) \<noteq> 28"
    if "Suc b < length probs"
  proof -
    from run that have "silent ?cs b" "\<not> silent ?cs (Suc b)" by auto
    with that show ?thesis by auto
  qed
  ultimately show ?thesis using run by blast
qed

theorem segment_maximal_runs_witness:
  "frame_class ([[0.2, 0.8], [0.9, 0.1], [0.2, 0.8]] ! 1) = 0
   \<and> \<not> silent (map frame_class [[0.2, 0.8], [0.9, 0.1], [0.2, 0.8]]) 0
   \<and> frame_class ([[0.2, 0.8], [0.9, 0.1], [0.2, 0.8]] ! 2) \<noteq> 0"
  using segment_maximal_runs [of "[[0.2, 0.8], [0.9, 0.1], [0.2, 0.8]]" "[(1, 1)]" 1 1]
  by (simp add: run_defs py_defs upt_rec)

text \<open>
  C37 (functional). If the arg-max of every row is the space symbol 0, \<open>segment\<close> returns
  exactly one interval, spanning the whole matrix from frame 0 to frame \<open>T - 1\<close>.
\<close>

theorem segment_all_space:
  assumes "probs \<noteq> []" and "\<forall>row \<in> set probs. argmax row = Inr 0"
  shows "segment probs = Inr [(0, length probs - 1)]"
proof -
  from assms(2) have "[] \<notin> set probs" by (auto dest: argmax_Inr_nonempty)
  moreover from assms have "map frame_class probs ! i = 0" if "i < length probs" for i
    using that by (simp add: frame_class_argmax)
  ultimately show ?thesis using assms(1)
    by (simp add: segment_result seg_classes_all_space)
qed

theorem segment_all_space_witness:
  "segment [[0.9, 0.1], [0.6, 0.4], [0.7, 0.3]] = Inr [(0, 2)]"
  using segment_all_space [of "[[0.9, 0.1], [0.6, 0.4], [0.7, 0.3]]"]
  by (simp add: py_defs)

text \<open>
  C38 (functional). If no row has the space symbol 0 as its arg-max, \<open>segment\<close> returns
  no interval at all; in particular blank frames alone never open an interval.
\<close>

theorem segment_no_space:
  assumes "probs \<noteq> []" and "\<forall>row \<in> set probs. \<exists>c. argmax row = Inr c \<and> c \<noteq> 0"
  shows "segment probs = Inr []"
proof -
  from assms(2) have "[] \<notin> set probs" by (auto dest: argmax_Inr_nonempty)
  moreover from assms(2) have "map frame_class probs ! i \<noteq> 0" if "i < length probs" for i
    using that by (auto simp: frame_class_def dest!: nth_mem)
  ultimately show ?thesis using assms(1)
    by (simp add: segment_result seg_classes_no_space)
qed

theorem segment_no_space_witness:
  "segment [[0.1, 0.9], [0.4, 0.6]] = Inr []"
  using segment_no_space [of "[[0.1, 0.9], [0.4, 0.6]]"]
  by (simp add: py_defs)

end
