(* ===== verification/PyString.thy ===== *)
theory PyString
  imports Prelude
begin

text \<open>
  The string methods of Python that \<open>src/main/python/main_window.py\<close> applies to the
  transcript and to the text of the word list: \<open>str.split()\<close> (lines 96, 272),
  \<open>str.lower()\<close> (line 96), \<open>" ".join\<close> (line 96), \<open>str.split(",")\<close> and \<open>str.strip()\<close>
  (line 97) and the substring test \<open>ele in word\<close> (line 277).

  A string is a list of characters with codes below 256, so the model is that of
  Latin-1 text: \<open>isspace\<close> holds for the characters below 256 that Python counts as
  whitespace (codes 9-13, 28-32, 133 and 160), and \<open>lower\<close> adds 32 to the code of an
  upper-case letter (codes 65-90, 192-214 and 216-222), as \<open>str.lower\<close> does on these
  characters. Text with characters beyond code 255 is outside the model.

  The lemmas characterise each function (the words of \<open>split_ws\<close> are non-empty and free
  of whitespace and their concatenation is the input without its whitespace; \<open>split_on\<close>
  and \<open>join\<close> are inverse; \<open>strip\<close> leaves no whitespace at either end) and show that
  \<open>py_in\<close> is the contiguous-sublist relation \<open>sublist\<close> of the library.
\<close>

section \<open>Characters\<close>

definition isspace :: "char \<Rightarrow> bool" where
  "isspace c = (let n = (of_char c :: nat) in
     (9 \<le> n \<and> n \<le> 13) \<or> (28 \<le> n \<and> n \<le> 32) \<or> n = 133 \<or> n = 160)"

definition isupper :: "char \<Rightarrow> bool" where
  "isupper c = (let n = (of_char c :: nat) in
     (65 \<le> n \<and> n \<le> 90) \<or> (192 \<le> n \<and> n \<le> 214) \<or> (216 \<le> n \<and> n \<le> 222))"

definition lower_char :: "char \<Rightarrow> char" where
  "lower_char c = (if isupper c then char_of ((of_char c :: nat) + 32) else c)"

definition lower :: "string \<Rightarrow> string" where
  "lower s = map lower_char s"

section \<open>Splitting and joining\<close>

function split_ws :: "string \<Rightarrow> string list" where
  "split_ws s =
     (case dropWhile isspace s of
        [] \<Rightarrow> []
      | c # cs \<Rightarrow>
          takeWhile (\<lambda>x. \<not> isspace x) (c # cs) #
          split_ws (dropWhile (\<lambda>x. \<not> isspace x) (c # cs)))"
  by pat_completeness auto
termination
proof (relation "measure length", goal_cases)
  case 1
  show ?case by simp
next
  case (2 s c cs)
  have "\<not> isspace c" using 2 hd_dropWhile [of isspace s] by simp
  then have "length (dropWhile (\<lambda>x. \<not> isspace x) (c # cs)) \<le> length cs"
    by (simp add: length_dropWhile_le)
  also have "\<dots> < length (c # cs)" by simp
  also have "\<dots> \<le> length s" using 2 length_dropWhile_le [of isspace s] by simp
  finally show ?case by simp
qed

declare split_ws.simps [simp del]

text \<open>What \<open>split_ws\<close> promises of each word: it is not empty and holds no whitespace.\<close>

definition word_ok :: "string \<Rightarrow> bool" where
  "word_ok w = (w \<noteq> [] \<and> list_all (\<lambda>c. \<not> isspace c) w)"

fun split_on :: "char \<Rightarrow> string \<Rightarrow> string list" where
  "split_on sep [] = [[]]"
| "split_on sep (c # cs) =
     (if c = sep then [] # split_on sep cs
      else (case split_on sep cs of [] \<Rightarrow> [[c]] | w # ws \<Rightarrow> (c # w) # ws))"

fun join :: "string \<Rightarrow> string list \<Rightarrow> string" where
  "join sep [] = []"
| "join sep [w] = w"
| "join sep (w # v # ws) = w @ sep @ join sep (v # ws)"

definition strip :: "string \<Rightarrow> string" where
  "strip s = rev (dropWhile isspace (rev (dropWhile isspace s)))"

section \<open>The substring test\<close>

fun py_in :: "string \<Rightarrow> string \<Rightarrow> bool" where
  "py_in ele [] = (ele = [])"
| "py_in ele (c # cs) = (prefix ele (c # cs) \<or> py_in ele cs)"

lemmas [py_defs] =
  isspace_def isupper_def lower_char_def lower_def strip_def word_ok_def split_ws.simps

section \<open>Characters: lemmas\<close>

lemma isupper_not_isspace: "isupper c \<Longrightarrow> \<not> isspace c"
  by (auto simp: isupper_def isspace_def Let_def)

lemma of_char_lower_char:
  "isupper c \<Longrightarrow> (of_char (lower_char c) :: nat) = of_char c + 32"
  by (auto simp: lower_char_def isupper_def Let_def)

lemma isupper_lower_char [simp]: "\<not> isupper (lower_char c)"
proof (cases "isupper c")
  case True
  then show ?thesis
    using of_char_lower_char [OF True] by (auto simp: isupper_def Let_def)
next
  case False
  then show ?thesis by (simp add: lower_char_def)
qed

lemma isspace_lower_char [simp]: "isspace (lower_char c) \<longleftrightarrow> isspace c"
proof (cases "isupper c")
  case True
  then show ?thesis
    using of_char_lower_char [OF True] isupper_not_isspace [OF True]
    by (auto simp: isupper_def isspace_def Let_def)
next
  case False
  then show ?thesis by (simp add: lower_char_def)
qed

lemma lower_char_idem [simp]: "lower_char (lower_char c) = lower_char c"
  by (simp add: lower_char_def [of "lower_char c"])

lemma lower_char_comma [simp]: "lower_char c = CHR '','' \<longleftrightarrow> c = CHR '',''"
proof (cases "isupper c")
  case True
  then show ?thesis
    using of_char_lower_char [OF True] by (auto simp: isupper_def Let_def)
next
  case False
  then show ?thesis by (simp add: lower_char_def)
qed

lemma lower_idem [simp]: "lower (lower s) = lower s"
  by (simp add: lower_def)

lemma length_lower [simp]: "length (lower s) = length s"
  by (simp add: lower_def)

lemma lower_no_upper: "c \<in> set (lower s) \<Longrightarrow> \<not> isupper c"
  by (auto simp: lower_def)

lemma lower_append [simp]: "lower (s @ t) = lower s @ lower t"
  by (simp add: lower_def)

lemma lower_Nil_iff [simp]: "lower s = [] \<longleftrightarrow> s = []"
  by (simp add: lower_def)

lemma all_space_lower [simp]: "(\<forall>c \<in> set (lower s). isspace c) \<longleftrightarrow> (\<forall>c \<in> set s. isspace c)"
  by (simp add: lower_def)

lemma comma_not_space [simp]: "\<not> isspace CHR '',''"
  by (simp add: isspace_def)

lemma blank_is_space [simp]: "isspace CHR '' ''"
  by (simp add: isspace_def)

section \<open>\<open>split_ws\<close>\<close>

lemma split_ws_all_space: "dropWhile isspace s = [] \<Longrightarrow> split_ws s = []"
  by (subst split_ws.simps) (simp del: dropWhile_eq_Nil_conv)

lemma split_ws_first_word:
  "dropWhile isspace s = c # cs \<Longrightarrow>
   split_ws s = takeWhile (\<lambda>x. \<not> isspace x) (c # cs) # split_ws (dropWhile (\<lambda>x. \<not> isspace x) (c # cs))"
  by (subst split_ws.simps) simp

lemma split_ws_Nil [simp]: "split_ws [] = []"
  by (simp add: split_ws_all_space)

lemma split_ws_space_Cons [simp]: "isspace c \<Longrightarrow> split_ws (c # s) = split_ws s"
  by (subst (1 2) split_ws.simps) simp

lemma split_ws_spaces_append [simp]:
  "\<forall>c \<in> set sp. isspace c \<Longrightarrow> split_ws (sp @ s) = split_ws s"
  by (induction sp) simp_all

lemma split_ws_word_append:
  assumes "word_ok w" and "s = [] \<or> isspace (hd s)"
  shows "split_ws (w @ s) = w # split_ws s"
proof -
  from assms(1) obtain c cs where w: "w = c # cs" and nsp: "\<forall>x \<in> set w. \<not> isspace x"
    by (cases w) (auto simp: word_ok_def list_all_iff)
  then have dw: "dropWhile isspace (w @ s) = c # cs @ s" by simp
  have tw: "takeWhile (\<lambda>x. \<not> isspace x) (w @ s) = w"
    using assms(2) nsp by (cases s) (simp_all add: takeWhile_append2)
  have dr: "dropWhile (\<lambda>x. \<not> isspace x) (w @ s) = s"
    using assms(2) nsp by (cases s) (simp_all add: dropWhile_append2)
  from split_ws_first_word [OF dw] tw dr w show ?thesis by simp
qed

lemma split_ws_words_ok: "list_all word_ok (split_ws s)"
proof (induction s rule: split_ws.induct)
  case (1 s)
  show ?case
  proof (cases "dropWhile isspace s")
    case Nil
    then show ?thesis by (simp add: split_ws_all_space)
  next
    case (Cons c cs)
    then have "\<not> isspace c" using hd_dropWhile [of isspace s] by simp
    moreover have "list_all (\<lambda>c. \<not> isspace c) (takeWhile (\<lambda>x. \<not> isspace x) cs)"
      by (auto simp: list_all_iff dest: set_takeWhileD)
    ultimately have "word_ok (takeWhile (\<lambda>x. \<not> isspace x) (c # cs))"
      by (simp add: word_ok_def)
    with "1.IH" [OF Cons] Cons show ?thesis
      by (simp add: split_ws_first_word)
  qed
qed

lemma concat_split_ws: "concat (split_ws s) = filter (\<lambda>c. \<not> isspace c) s"
proof (induction s rule: split_ws.induct)
  case (1 s)
  let ?ns = "\<lambda>c. \<not> isspace c"
  have s: "filter ?ns s = filter ?ns (dropWhile isspace s)"
    by (induction s) simp_all
  show ?case
  proof (cases "dropWhile isspace s")
    case Nil
    with s show ?thesis by (simp add: split_ws_all_space)
  next
    case (Cons c cs)
    have "filter ?ns (c # cs) =
        filter ?ns (takeWhile ?ns (c # cs)) @ filter ?ns (dropWhile ?ns (c # cs))"
      by (metis filter_append takeWhile_dropWhile_id)
    also have "filter ?ns (takeWhile ?ns (c # cs)) = takeWhile ?ns (c # cs)"
      by (rule filter_True) (auto dest: set_takeWhileD)
    finally show ?thesis
      using "1.IH" [OF Cons] Cons s by (simp add: split_ws_first_word)
  qed
qed

lemma split_ws_Nil_iff: "split_ws s = [] \<longleftrightarrow> (\<forall>c \<in> set s. isspace c)"
proof -
  have "split_ws s = [] \<longleftrightarrow> concat (split_ws s) = []"
    using split_ws_words_ok [of s] by (auto simp: list_all_iff word_ok_def)
  then show ?thesis by (simp add: concat_split_ws filter_empty_conv)
qed

section \<open>\<open>join\<close>\<close>

lemma join_Cons: "ws \<noteq> [] \<Longrightarrow> join sep (w # ws) = w @ sep @ join sep ws"
  by (cases ws) simp_all

lemma join_Cons_Cons: "join sep ((c # w) # ws) = c # join sep (w # ws)"
  by (cases ws) simp_all

lemma split_ws_join:
  "list_all word_ok ws \<Longrightarrow> split_ws (join '' '' ws) = ws"
proof (induction ws rule: induct_list012)
  case 1
  then show ?case by simp
next
  case (2 w)
  then show ?case using split_ws_word_append [of w "[]"] by simp
next
  case (3 w v ws)
  then show ?case
    using split_ws_word_append [of w "'' '' @ join '' '' (v # ws)"] by simp
qed

lemma split_ws_join_split_ws [simp]: "split_ws (join '' '' (split_ws s)) = split_ws s"
  by (simp add: split_ws_join split_ws_words_ok)

section \<open>\<open>split_on\<close>\<close>

lemma split_on_not_Nil [simp]: "split_on sep s \<noteq> []"
  by (induction s) (auto split: list.splits)

lemma join_split_on [simp]: "join [sep] (split_on sep s) = s"
proof (induction s)
  case Nil
  then show ?case by simp
next
  case (Cons c cs)
  then show ?case
    by (cases "split_on sep cs") (auto simp: join_Cons join_Cons_Cons split: list.splits)
qed

lemma length_split_on: "length (split_on sep s) = Suc (count_list s sep)"
  by (induction s) (auto split: list.splits)

lemma split_on_no_sep: "w \<in> set (split_on sep s) \<Longrightarrow> sep \<notin> set w"
  by (induction s arbitrary: w) (auto split: list.splits if_splits)

lemma split_on_join:
  "ws \<noteq> [] \<Longrightarrow> \<forall>w \<in> set ws. sep \<notin> set w \<Longrightarrow> split_on sep (join [sep] ws) = ws"
proof (induction ws rule: induct_list012)
  case 1
  then show ?case by simp
next
  case (2 w)
  then show ?case by (induction w) auto
next
  case (3 w v ws)
  then have IH: "split_on sep (join [sep] (v # ws)) = v # ws" by simp
  from "3.prems" have "sep \<notin> set w" by simp
  then have "split_on sep (w @ sep # join [sep] (v # ws)) = w # v # ws"
    using IH by (induction w) auto
  then show ?case by simp
qed

section \<open>\<open>strip\<close>\<close>

lemma strip_Nil [simp]: "strip [] = []"
  by (simp add: strip_def)

lemma strip_ends:
  assumes "strip s \<noteq> []"
  shows "\<not> isspace (hd (strip s)) \<and> \<not> isspace (last (strip s))"
proof -
  define d where "d = dropWhile isspace s"
  define r where "r = dropWhile isspace (rev d)"
  have strip: "strip s = rev r" by (simp add: strip_def r_def d_def)
  with assms have r: "r \<noteq> []" by simp
  then have "rev d \<noteq> []" unfolding r_def by (cases "rev d") auto
  then have d: "d \<noteq> []" by simp
  from r have "\<not> isspace (hd r)" unfolding r_def by (rule hd_dropWhile)
  then have "\<not> isspace (last (strip s))" by (simp add: strip last_rev)
  moreover from r have "last r = last (rev d)" unfolding r_def by (rule last_dropWhile)
  then have "hd (strip s) = hd d" by (simp add: strip hd_rev last_rev)
  moreover from d have "\<not> isspace (hd d)" unfolding d_def by (rule hd_dropWhile)
  ultimately show ?thesis by simp
qed

lemma strip_no_space_ends:
  assumes "s \<noteq> []" "\<not> isspace (hd s)" "\<not> isspace (last s)"
  shows "strip s = s"
proof -
  from assms have "dropWhile isspace s = s" by (simp add: dropWhile_eq_self_iff)
  moreover from assms have "dropWhile isspace (rev s) = rev s"
    by (simp add: dropWhile_eq_self_iff hd_rev)
  ultimately show ?thesis by (simp add: strip_def)
qed

lemma strip_idem [simp]: "strip (strip s) = strip s"
  by (cases "strip s = []") (simp_all add: strip_ends strip_no_space_ends)

lemma set_strip: "set (strip s) \<subseteq> set s"
  by (auto simp: strip_def dest!: set_dropWhileD)

section \<open>\<open>py_in\<close>\<close>

lemma py_in_sublist: "py_in ele w \<longleftrightarrow> sublist ele w"
  by (induction w) (auto simp: sublist_Cons_right)

lemma py_in_Nil [simp]: "py_in [] w"
  by (simp add: py_in_sublist)

lemma py_in_refl [simp]: "py_in w w"
  by (simp add: py_in_sublist)

lemma py_in_length: "py_in ele w \<Longrightarrow> length ele \<le> length w"
  by (simp add: py_in_sublist sublist_length_le)

lemma py_in_append: "py_in ele (pre @ ele @ post)"
  by (simp add: py_in_sublist)

section \<open>Further facts about joining and splitting\<close>

lemma set_join: "set (join sep ws) \<subseteq> set sep \<union> \<Union> (set ` set ws)"
  by (induction sep ws rule: join.induct) auto

lemma set_concat_split_ws: "\<Union> (set ` set (split_ws s)) = {c \<in> set s. \<not> isspace c}"
  using concat_split_ws [of s] by (metis set_concat set_filter)

lemma blank_not_upper [simp]: "\<not> isupper CHR '' ''"
  by (simp add: isupper_def)

lemma set_piece_join: "w \<in> set ws \<Longrightarrow> set w \<subseteq> set (join sep ws)"
  by (induction sep ws rule: join.induct) auto

lemma set_split_on: "w \<in> set (split_on sep s) \<Longrightarrow> set w \<subseteq> set s"
  using set_piece_join [of w "split_on sep s" "[sep]"] by simp

lemma join_Nil_iff_words: "list_all word_ok ws \<Longrightarrow> join sep ws = [] \<longleftrightarrow> ws = []"
  by (induction sep ws rule: join.induct) (auto simp: word_ok_def)

lemma count_list_join_blank:
  "x \<noteq> CHR '' '' \<Longrightarrow> count_list (join '' '' ws) x = count_list (concat ws) x"
  by (induction "'' ''" ws rule: join.induct) (simp_all add: count_list_append)

lemma count_list_lower_comma: "count_list (lower s) CHR '','' = count_list s CHR '',''"
  by (induction s) (auto simp: lower_def)

lemma split_on_snoc_sep: "split_on sep (s @ [sep]) = split_on sep s @ [[]]"
  by (induction s) (auto split: list.splits)

lemma join_last_nonempty: "ws \<noteq> [] \<Longrightarrow> last ws \<noteq> [] \<Longrightarrow> join sep ws \<noteq> []"
  by (induction sep ws rule: join.induct) auto

lemma last_join:
  "ws \<noteq> [] \<Longrightarrow> last ws \<noteq> [] \<Longrightarrow> last (join sep ws) = last (last ws)"
proof (induction sep ws rule: join.induct)
  case (3 sep w v ws)
  then have "join sep (v # ws) \<noteq> []" by (intro join_last_nonempty) auto
  with 3 show ?case by (simp add: last_append)
qed simp_all

lemma last_concat_words:
  "ws \<noteq> [] \<Longrightarrow> list_all word_ok ws \<Longrightarrow> last (concat ws) = last (last ws)"
  by (induction ws rule: induct_list012) (auto simp: word_ok_def)

section \<open>Properties\<close>

text \<open>
  C32 (equivalence). The substring test \<open>ele in word\<close>, computed by trying \<open>ele\<close> as a
  prefix at every position of \<open>word\<close>, holds exactly when \<open>ele\<close> is a contiguous sublist
  of \<open>word\<close>, that is when \<open>word = pre @ ele @ post\<close> for some \<open>pre\<close> and \<open>post\<close>.
\<close>

theorem py_in_iff_sublist: "py_in ele w \<longleftrightarrow> (\<exists>pre post. w = pre @ ele @ post)"
  by (simp add: py_in_sublist sublist_def)

theorem py_in_iff_sublist_witness:
  "py_in ''bad'' ''badly'' \<and> \<not> py_in ''bad'' ''bread'' \<and> (\<exists>pre post. ''badly'' = pre @ ''bad'' @ post)"
  using py_in_iff_sublist [of "''bad''" "''badly''"] by simp

text \<open>
  C31 (functional). \<open>str.split()\<close> returns words that are not empty and hold no
  whitespace, and their concatenation is the input with all its whitespace removed:
  nothing but whitespace is dropped and no character is reordered. The words are the
  maximal runs: after leading whitespace, a run of non-whitespace characters that ends
  at the end of the text or before a whitespace character is the first word, and the
  rest is split in the same way.
\<close>

theorem split_ws_spec:
  "list_all word_ok (split_ws s) \<and> concat (split_ws s) = filter (\<lambda>c. \<not> isspace c) s \<and>
   (\<forall>sp w rest. list_all isspace sp \<and> word_ok w \<and> (rest = [] \<or> isspace (hd rest)) \<longrightarrow>
      split_ws (sp @ w @ rest) = w # split_ws rest)"
  using split_ws_words_ok [of s]
  by (simp add: concat_split_ws split_ws_word_append list_all_iff)

theorem split_ws_spec_witness:
  "split_ws ''  the quick  fox '' = [''the'', ''quick'', ''fox'']
   \<and> list_all word_ok (split_ws ''  the quick  fox '')
   \<and> concat (split_ws ''  the quick  fox '') = ''thequickfox''"
  using split_ws_spec [of "''  the quick  fox ''"] by (simp add: py_defs)

text \<open>
  C33 (roundtrip). Splitting at whitespace undoes joining with single blanks: for any
  list of non-empty words without whitespace, \<open>" ".join(ws).split()\<close> is \<open>ws\<close> again.
\<close>

theorem split_ws_join_roundtrip:
  assumes "list_all word_ok ws"
  shows "split_ws (join '' '' ws) = ws"
  using assms by (rule split_ws_join)

theorem split_ws_join_roundtrip_witness:
  "split_ws (join '' '' [''so'', ''bad'']) = [''so'', ''bad'']"
  using split_ws_join_roundtrip [of "[''so'', ''bad'']"] by (simp add: py_defs)

text \<open>
  C34 (roundtrip). \<open>str.split(sep)\<close> and \<open>sep.join\<close> are inverse to each other: joining
  the pieces of a string gives the string back, the pieces never contain the separator
  and there is one piece more than there are separators in the string.
\<close>

theorem split_on_roundtrip:
  "join [sep] (split_on sep s) = s
   \<and> length (split_on sep s) = Suc (count_list s sep)
   \<and> (\<forall>w \<in> set (split_on sep s). sep \<notin> set w)"
  by (simp add: length_split_on split_on_no_sep)

theorem split_on_roundtrip_witness:
  "split_on CHR '','' ''a,,b c,'' = [''a'', [], ''b c'', []]
   \<and> join '','' (split_on CHR '','' ''a,,b c,'') = ''a,,b c,''"
  using split_on_roundtrip [of "CHR '',''" "''a,,b c,''"] by simp

end
