(* ===== verification/TimeFormat.thy ===== *)
theory TimeFormat
  imports Prelude
begin

text \<open>
  The rendering of a time stamp in \<open>DetectorThread.run\<close>
  (\<open>src/main/python/main_window.py\<close>, lines 280-281):
  \<open>time.strftime("%H:%M:%S", time.gmtime(pos))\<close>.

  \<open>gmtime\<close> converts seconds since the epoch to broken-down UTC time; CPython rounds a
  float argument towards minus infinity first. Of the result only the three fields that
  the format string reads are kept (\<open>struct_time\<close>). \<open>strftime_HMS\<close> prints them with two
  decimal digits each. The model is that of a POSIX platform, where \<open>gmtime\<close> accepts
  negative arguments; year overflow of very large arguments is outside the model (the
  arguments here are bounded by the length of the recording).

  \<open>hms_seconds\<close> reads such a string back. The lemmas show that the fields are in range,
  that the string has the shape \<open>dd:dd:dd\<close>, and that reading back gives the whole
  seconds of the argument modulo one day: the rendering is faithful within the first
  day and wraps around for negative arguments.
\<close>

section \<open>Definitions\<close>

record struct_time =
  tm_hour :: int
  tm_min :: int
  tm_sec :: int

definition gmtime :: "real \<Rightarrow> struct_time" where
  "gmtime secs =
     (let t = \<lfloor>secs\<rfloor>
      in \<lparr>tm_hour = (t div 3600) mod 24, tm_min = (t div 60) mod 60, tm_sec = t mod 60\<rparr>)"

definition digit_char :: "int \<Rightarrow> char" where
  "digit_char d = char_of (48 + nat d)"

definition two_digits :: "int \<Rightarrow> string" where
  "two_digits n = [digit_char (n div 10), digit_char (n mod 10)]"

definition strftime_HMS :: "struct_time \<Rightarrow> string" where
  "strftime_HMS tm =
     two_digits (tm_hour tm) @ '':'' @ two_digits (tm_min tm) @ '':'' @ two_digits (tm_sec tm)"

definition hms :: "real \<Rightarrow> string" where
  "hms secs = strftime_HMS (gmtime secs)"

text \<open>Reading a rendered time back, for the statement of the round trip.\<close>

definition digit_val :: "char \<Rightarrow> int" where
  "digit_val c = int (of_char c) - 48"

definition is_digit :: "char \<Rightarrow> bool" where
  "is_digit c = (48 \<le> (of_char c :: nat) \<and> (of_char c :: nat) \<le> 57)"

definition hms_seconds :: "string \<Rightarrow> int" where
  "hms_seconds s =
     (10 * digit_val (s ! 0) + digit_val (s ! 1)) * 3600
     + (10 * digit_val (s ! 3) + digit_val (s ! 4)) * 60
     + (10 * digit_val (s ! 6) + digit_val (s ! 7))"

definition hms_shape :: "string \<Rightarrow> bool" where
  "hms_shape s =
     (length s = 8 \<and> s ! 2 = CHR '':'' \<and> s ! 5 = CHR '':''
      \<and> list_all (\<lambda>i. is_digit (s ! i)) [0, 1, 3, 4, 6, 7])"

lemmas [py_defs] =
  gmtime_def digit_char_def two_digits_def strftime_HMS_def hms_def digit_val_def is_digit_def
  hms_seconds_def hms_shape_def

section \<open>Digits\<close>

lemma digit_val_digit_char: "0 \<le> d \<Longrightarrow> d \<le> 9 \<Longrightarrow> digit_val (digit_char d) = d"
  by (simp add: digit_val_def digit_char_def)

lemma is_digit_digit_char: "0 \<le> d \<Longrightarrow> d \<le> 9 \<Longrightarrow> is_digit (digit_char d)"
  by (simp add: is_digit_def digit_char_def)

lemma two_digits_value:
  assumes "0 \<le> n" "n < 100"
  shows "10 * digit_val (two_digits n ! 0) + digit_val (two_digits n ! Suc 0) = n"
proof -
  from assms have "0 \<le> n div 10" "n div 10 \<le> 9" "0 \<le> n mod 10" "n mod 10 \<le> 9"
    by auto
  then show ?thesis by (simp add: two_digits_def digit_val_digit_char)
qed

lemma two_digits_shape:
  assumes "0 \<le> n" "n < 100"
  shows "length (two_digits n) = 2 \<and> is_digit (two_digits n ! 0) \<and> is_digit (two_digits n ! Suc 0)"
proof -
  from assms have "0 \<le> n div 10" "n div 10 \<le> 9" "0 \<le> n mod 10" "n mod 10 \<le> 9"
    by auto
  then show ?thesis by (simp add: two_digits_def is_digit_digit_char)
qed

section \<open>The fields of \<open>gmtime\<close>\<close>

lemma gmtime_ranges:
  "0 \<le> tm_hour (gmtime t) \<and> tm_hour (gmtime t) < 24
   \<and> 0 \<le> tm_min (gmtime t) \<and> tm_min (gmtime t) < 60
   \<and> 0 \<le> tm_sec (gmtime t) \<and> tm_sec (gmtime t) < 60"
  by (simp add: gmtime_def Let_def)

lemma day_seconds_decompose:
  fixes t :: int
  shows "((t div 3600) mod 24) * 3600 + ((t div 60) mod 60) * 60 + t mod 60 = t mod 86400"
proof -
  have "t mod (60 * 1440) = 60 * (t div 60 mod 1440) + t mod 60"
    by (rule zmod_zmult2_eq) simp
  moreover have "(t div 60) mod (60 * 24) = 60 * (t div 60 div 60 mod 24) + t div 60 mod 60"
    by (rule zmod_zmult2_eq) simp
  moreover have "t div (60 * 60) = t div 60 div 60"
    by (rule zdiv_zmult2_eq) simp
  ultimately show ?thesis by simp
qed

lemma day_period:
  fixes u :: int
  shows "(u + 86400) div 3600 mod 24 = u div 3600 mod 24"
    and "(u + 86400) div 60 mod 60 = u div 60 mod 60"
    and "(u + 86400) mod 60 = u mod 60"
proof -
  have "(u + 24 * 3600) div 3600 = 24 + u div 3600" by (rule div_mult_self1) simp
  then show "(u + 86400) div 3600 mod 24 = u div 3600 mod 24" by simp
  have "(u + 1440 * 60) div 60 = 1440 + u div 60" by (rule div_mult_self1) simp
  moreover have "(u div 60 + 24 * 60) mod 60 = u div 60 mod 60" by (rule mod_mult_self1)
  ultimately show "(u + 86400) div 60 mod 60 = u div 60 mod 60" by (simp add: add.commute)
  have "(u + 1440 * 60) mod 60 = u mod 60" by (rule mod_mult_self1)
  then show "(u + 86400) mod 60 = u mod 60" by simp
qed

lemma gmtime_seconds:
  "tm_hour (gmtime t) * 3600 + tm_min (gmtime t) * 60 + tm_sec (gmtime t) = \<lfloor>t\<rfloor> mod 86400"
  by (simp add: gmtime_def Let_def day_seconds_decompose)

section \<open>The rendered string\<close>

lemma strftime_HMS_nth:
  "strftime_HMS tm ! 0 = two_digits (tm_hour tm) ! 0"
  "strftime_HMS tm ! Suc 0 = two_digits (tm_hour tm) ! Suc 0"
  "strftime_HMS tm ! 2 = CHR '':''"
  "strftime_HMS tm ! 3 = two_digits (tm_min tm) ! 0"
  "strftime_HMS tm ! 4 = two_digits (tm_min tm) ! Suc 0"
  "strftime_HMS tm ! 5 = CHR '':''"
  "strftime_HMS tm ! 6 = two_digits (tm_sec tm) ! 0"
  "strftime_HMS tm ! 7 = two_digits (tm_sec tm) ! Suc 0"
  by (simp_all add: strftime_HMS_def two_digits_def numeral_eq_Suc)

lemma length_strftime_HMS [simp]: "length (strftime_HMS tm) = 8"
  by (simp add: strftime_HMS_def two_digits_def)

lemma length_hms [simp]: "length (hms t) = 8"
  by (simp add: hms_def)

lemma hms_shape_hms: "hms_shape (hms t)"
  using gmtime_ranges [of t]
  by (simp add: hms_shape_def hms_def strftime_HMS_nth two_digits_shape)

lemma hms_seconds_hms: "hms_seconds (hms t) = \<lfloor>t\<rfloor> mod 86400"
  using gmtime_ranges [of t] gmtime_seconds [of t]
  by (simp add: hms_seconds_def hms_def strftime_HMS_nth two_digits_value)

lemma hms_zero: "hms 0 = ''00:00:00''"
  by (simp add: run_defs py_defs hms_def gmtime_def strftime_HMS_def two_digits_def digit_char_def)

lemma hms_floor: "hms t = hms (of_int \<lfloor>t\<rfloor>)"
  by (simp add: hms_def gmtime_def)

lemma hms_period: "hms (t + 86400) = hms t"
proof -
  have "\<lfloor>t + 86400\<rfloor> = \<lfloor>t\<rfloor> + 86400" by linarith
  then show ?thesis
    by (simp add: hms_def gmtime_def Let_def day_period)
qed

section \<open>Properties\<close>

text \<open>
  C27 (roundtrip). The text printed for a time has the shape \<open>dd:dd:dd\<close>, and reading it
  back gives the whole seconds of the time modulo one day (86400 seconds). So times
  within the first day are printed faithfully up to truncation to whole seconds, while
  a negative time is printed as a time shortly before midnight.
\<close>

theorem hms_roundtrip: "hms_shape (hms t) \<and> hms_seconds (hms t) = \<lfloor>t\<rfloor> mod 86400"
  by (simp add: hms_shape_hms hms_seconds_hms)

theorem hms_roundtrip_witness:
  "hms_shape (hms 3725.9) \<and> hms_seconds (hms 3725.9) = 3725 \<and> hms 3725.9 = ''01:02:05''"
  using hms_roundtrip [of "3725.9"] by (simp add: py_defs)

end
