(* ===== verification/Aligner.thy ===== *)
theory Aligner
  imports Segmenter PyString TimeFormat
begin

text \<open>
  The second loop of \<open>DetectorThread.run\<close> (\<open>src/main/python/main_window.py\<close>, lines
  269-284), which walks over the silence intervals, computes the time of each word
  boundary and emits a progress signal for every word that contains one of the words
  in \<open>bad_words\<close>.

  The variables of the loop are the record \<open>align_state\<close>: \<open>pos_prev\<close>, and the signals
  emitted so far (\<open>progress\<close>). \<open>pos_end_of\<close> is line 276, \<open>matches\<close> the list comprehension
  of line 277 (its \<open>words[j + 1]\<close> is evaluated once per element of \<open>bad_words\<close>, so it
  cannot raise when \<open>bad_words\<close> is empty), \<open>format_result\<close> lines 278-282, \<open>align_step\<close>
  the loop body and \<open>align_loop\<close> the loop over \<open>enumerate(spaces)\<close>. An exception leaves
  the loop at once; the signals emitted before it stay emitted, so \<open>align\<close> returns
  them together with the exception, if any.

  Times are real numbers. The source computes them in binary floating point, whose
  result can differ from the exact one in the last bit; where the exact time is a whole
  number of seconds the printed second can then differ (for an interval with
  \<open>start + end = 418\<close> the source computes \<open>3.9999999999999996\<close> and prints \<open>00:00:03\<close>,
  the exact value 4 prints \<open>00:00:04\<close>).

  The specification is \<open>report_at\<close>: what iteration \<open>j\<close> reports, as a function of the
  inputs alone. The lemmas show that \<open>align\<close> emits the reports of the first
  \<open>min (len spaces) (len words - 1)\<close> iterations in order, when it raises, and that the
  boundary times increase along well-formed intervals.
\<close>

section \<open>State and operations\<close>

definition time_stride :: real where
  "time_stride = 0.02"

definition offset :: real where
  "offset = - 0.18"

definition pos_end_of :: "interval \<Rightarrow> real" where
  "pos_end_of spot = offset + (real (fst spot) + real (snd spot)) / 2 * time_stride"

definition matches :: "string list \<Rightarrow> string list \<Rightarrow> nat \<Rightarrow> string list result" where
  "matches bad_words words j =
     (if bad_words = [] then Inr []
      else and_then (py_nth words (j + 1)) (\<lambda>w. Inr (filter (\<lambda>ele. py_in ele w) bad_words)))"

definition format_result :: "string \<Rightarrow> real \<Rightarrow> real \<Rightarrow> string" where
  "format_result w t_start t_end = w @ '' Start: '' @ hms t_start @ '' End: '' @ hms t_end"

record align_state =
  pos_prev :: real
  progress :: "string list"

definition align_init :: align_state where
  "align_init = \<lparr>pos_prev = 0, progress = []\<rparr>"

definition align_step ::
  "string list \<Rightarrow> string list \<Rightarrow> nat \<Rightarrow> interval \<Rightarrow> align_state \<Rightarrow> align_state result" where
  "align_step bad_words words j spot s =
     (let pos_end = pos_end_of spot in
      and_then (matches bad_words words j) (\<lambda>found.
        if found \<noteq> [] then
          and_then (py_nth words (j + 1)) (\<lambda>w.
            Inr \<lparr>pos_prev = pos_end,
                 progress = progress s @ [format_result w (pos_prev s) pos_end]\<rparr>)
        else Inr (s\<lparr>pos_prev := pos_end\<rparr>)))"

fun align_loop ::
  "string list \<Rightarrow> string list \<Rightarrow> (nat \<times> interval) list \<Rightarrow> align_state \<Rightarrow>
   align_state \<times> py_error option" where
  "align_loop bad_words words [] s = (s, None)"
| "align_loop bad_words words ((j, spot) # rest) s =
     (case align_step bad_words words j spot s of
        Inl err \<Rightarrow> (s, Some err)
      | Inr s' \<Rightarrow> align_loop bad_words words rest s')"

definition align :: "string list \<Rightarrow> string list \<Rightarrow> interval list \<Rightarrow> string list \<times> py_error option" where
  "align bad_words words spcs =
     (case align_loop bad_words words (enumerate 0 spcs) align_init of
        (s, err) \<Rightarrow> (progress s, err))"

lemmas [run_defs] =
  time_stride_def offset_def pos_end_of_def matches_def format_result_def align_init_def
  align_step_def align_def

section \<open>Specification\<close>

definition hit :: "string list \<Rightarrow> string \<Rightarrow> bool" where
  "hit bad_words w = list_ex (\<lambda>ele. py_in ele w) bad_words"

definition start_of :: "interval list \<Rightarrow> nat \<Rightarrow> real" where
  "start_of spcs j = (if j = 0 then 0 else pos_end_of (spcs ! (j - 1)))"

definition report_at :: "string list \<Rightarrow> string list \<Rightarrow> interval list \<Rightarrow> nat \<Rightarrow> string list" where
  "report_at bad_words words spcs j =
     (if hit bad_words (words ! Suc j)
      then [format_result (words ! Suc j) (start_of spcs j) (pos_end_of (spcs ! j))]
      else [])"

definition reports :: "string list \<Rightarrow> string list \<Rightarrow> interval list \<Rightarrow> nat \<Rightarrow> string list" where
  "reports bad_words words spcs n = concat (map (report_at bad_words words spcs) [0..<n])"

lemmas [run_defs] = hit_def start_of_def report_at_def reports_def

section \<open>One iteration\<close>

lemma matches_Inr_iff:
  "matches bw ws j = Inr found \<longleftrightarrow>
     (bw = [] \<and> found = []) \<or> (bw \<noteq> [] \<and> j + 1 < length ws \<and> found = filter (\<lambda>ele. py_in ele (ws ! (j + 1))) bw)"
  by (auto simp: matches_def py_nth_def)

lemma matches_raises_iff: "matches bw ws j = Inl e \<longleftrightarrow> bw \<noteq> [] \<and> length ws \<le> j + 1 \<and> e = IndexError"
  by (auto simp: matches_def py_nth_def)

lemma filter_Nil_hit: "filter (\<lambda>ele. py_in ele w) bw \<noteq> [] \<longleftrightarrow> hit bw w"
  by (auto simp: hit_def filter_empty_conv list_ex_iff)

lemma hit_Nil [simp]: "\<not> hit [] w"
  by (simp add: hit_def)

lemma align_step_ok:
  assumes "bw = [] \<or> Suc j < length ws"
  shows "align_step bw ws j spot s =
     Inr \<lparr>pos_prev = pos_end_of spot,
          progress = progress s @
            (if hit bw (ws ! Suc j) then [format_result (ws ! Suc j) (pos_prev s) (pos_end_of spot)] else [])\<rparr>"
proof (cases "bw = []")
  case True
  then show ?thesis by (simp add: align_step_def matches_def)
next
  case False
  with assms have "Suc j < length ws" by simp
  with False show ?thesis
    by (simp add: align_step_def matches_def filter_Nil_hit Let_def)
qed

lemma align_step_raises:
  assumes "bw \<noteq> []" "length ws \<le> Suc j"
  shows "align_step bw ws j spot s = Inl IndexError"
  using assms by (simp add: align_step_def matches_def)

lemma align_loop_append:
  "align_loop bw ws (xs @ ys) s =
     (case align_loop bw ws xs s of
        (s', None) \<Rightarrow> align_loop bw ws ys s'
      | (s', Some e) \<Rightarrow> (s', Some e))"
  by (induction xs arbitrary: s) (auto split: sum.splits)

lemma enumerate_take_Suc:
  "k < length xs \<Longrightarrow> enumerate 0 (take (Suc k) xs) = enumerate 0 (take k xs) @ [(k, xs ! k)]"
  by (simp add: take_Suc_conv_app_nth enumerate_append_eq)

lemma start_of_Suc [simp]: "start_of spcs (Suc k) = pos_end_of (spcs ! k)"
  by (simp add: start_of_def)

lemma start_of_0 [simp]: "start_of spcs 0 = 0"
  by (simp add: start_of_def)

lemma reports_Suc:
  "reports bw ws spcs (Suc k) = reports bw ws spcs k @ report_at bw ws spcs k"
  by (simp add: reports_def)

lemma reports_0 [simp]: "reports bw ws spcs 0 = []"
  by (simp add: reports_def)

lemma align_loop_prefix:
  assumes "k \<le> length spcs" and "bw = [] \<or> k < length ws"
  shows "align_loop bw ws (enumerate 0 (take k spcs)) align_init =
           (\<lparr>pos_prev = start_of spcs k, progress = reports bw ws spcs k\<rparr>, None)"
  using assms
proof (induction k)
  case 0
  then show ?case by (simp add: align_init_def)
next
  case (Suc k)
  then have IH: "align_loop bw ws (enumerate 0 (take k spcs)) align_init =
           (\<lparr>pos_prev = start_of spcs k, progress = reports bw ws spcs k\<rparr>, None)"
    by auto
  from Suc.prems have "bw = [] \<or> Suc k < length ws" by simp
  from align_step_ok [OF this] Suc.prems IH show ?case
    by (simp add: enumerate_take_Suc align_loop_append reports_Suc report_at_def)
qed

lemma align_no_error:
  assumes "bw = [] \<or> length spcs < length ws"
  shows "align bw ws spcs = (reports bw ws spcs (length spcs), None)"
  using align_loop_prefix [of "length spcs" spcs bw ws] assms
  by (simp add: align_def)

lemma align_error:
  assumes "bw \<noteq> []" "spcs \<noteq> []" "length ws \<le> length spcs"
  shows "align bw ws spcs = (reports bw ws spcs (length ws - 1), Some IndexError)"
proof -
  define k where "k = length ws - 1"
  from assms(2) have "0 < length spcs" by simp
  with assms(3) have k: "k < length spcs" "length ws \<le> Suc k" "k \<le> length spcs"
    unfolding k_def by linarith+
  have pre: "align_loop bw ws (enumerate 0 (take k spcs)) align_init =
           (\<lparr>pos_prev = start_of spcs k, progress = reports bw ws spcs k\<rparr>, None)"
  proof (cases "k = 0")
    case True
    then show ?thesis by (simp add: align_init_def)
  next
    case False
    then have "k < length ws" by (simp add: k_def)
    with k show ?thesis by (intro align_loop_prefix) simp_all
  qed
  have "enumerate 0 spcs = enumerate 0 (take k spcs) @ (k, spcs ! k) # enumerate (Suc k) (drop (Suc k) spcs)"
    using k(1) by (metis Cons_nth_drop_Suc append_take_drop_id enumerate_append_eq
        enumerate_simps(2) length_take min.absorb2 k(3) add_0)
  with pre align_step_raises [OF assms(1) k(2)] show ?thesis
    by (simp add: align_def align_loop_append k_def)
qed

lemma pos_end_of_mono:
  assumes "separated p q" "fst q \<le> snd q" "fst p \<le> snd p"
  shows "pos_end_of p < pos_end_of q"
  using assms by (simp add: pos_end_of_def separated_def time_stride_def)

lemma reports_no_keywords [simp]: "reports [] ws spcs n = []"
  by (simp add: reports_def report_at_def)

lemma align_result:
  "align bw ws spcs =
     (reports bw ws spcs (min (length spcs) (length ws - 1)),
      if bw \<noteq> [] \<and> spcs \<noteq> [] \<and> length ws \<le> length spcs then Some IndexError else None)"
proof (cases "bw \<noteq> [] \<and> spcs \<noteq> [] \<and> length ws \<le> length spcs")
  case True
  then have "min (length spcs) (length ws - 1) = length ws - 1" by (cases ws) auto
  with True show ?thesis by (simp add: align_error)
next
  case False
  then consider "bw = []" | "bw \<noteq> []" "spcs = []" | "bw \<noteq> []" "length spcs < length ws"
    by fastforce
  then show ?thesis
  proof cases
    case 1
    then show ?thesis by (simp add: align_no_error)
  next
    case 2
    then show ?thesis by (simp add: align_def align_init_def)
  next
    case 3
    then have "min (length spcs) (length ws - 1) = length spcs" by simp
    with 3 show ?thesis by (simp add: align_no_error)
  qed
qed

lemma length_report_at: "length (report_at bw ws spcs j) \<le> 1"
  by (simp add: report_at_def)

lemma length_reports: "length (reports bw ws spcs n) \<le> n"
proof (induction n)
  case 0
  then show ?case by simp
next
  case (Suc n)
  with length_report_at [of bw ws spcs n] show ?case by (simp add: reports_Suc)
qed

lemma format_result_nonempty [simp]: "format_result w a b \<noteq> []"
  by (simp add: format_result_def)

lemma reports_nonempty: "r \<in> set (reports bw ws spcs n) \<Longrightarrow> r \<noteq> []"
  by (auto simp: reports_def report_at_def split: if_splits)

lemma align_emits_nonempty: "r \<in> set (fst (align bw ws spcs)) \<Longrightarrow> r \<noteq> []"
  by (simp add: align_result reports_nonempty)

lemma hit_empty_keyword: "[] \<in> set bw \<Longrightarrow> hit bw w"
  by (auto simp: hit_def list_ex_iff intro!: bexI [of _ "[]"])

lemma length_reports_empty_keyword: "[] \<in> set bw \<Longrightarrow> length (reports bw ws spcs n) = n"
  by (induction n) (simp_all add: reports_Suc report_at_def hit_empty_keyword)

lemma report_at_first_word: "report_at bw (w # ws) spcs j = report_at bw (w' # ws) spcs j"
  by (simp add: report_at_def)

lemma reports_first_word: "reports bw (w # ws) spcs n = reports bw (w' # ws) spcs n"
proof -
  have "report_at bw (w # ws) spcs = report_at bw (w' # ws) spcs"
    by (rule ext) (simp add: report_at_def)
  then show ?thesis by (simp add: reports_def)
qed

section \<open>Boundary times\<close>

lemma intervals_ok_nth:
  "intervals_ok n spcs \<Longrightarrow> j < length spcs \<Longrightarrow> fst (spcs ! j) \<le> snd (spcs ! j) \<and> snd (spcs ! j) < n"
  by (cases "spcs ! j") (auto simp: intervals_ok_def list_all_length)

lemma intervals_ok_separated:
  "intervals_ok n spcs \<Longrightarrow> i < j \<Longrightarrow> j < length spcs \<Longrightarrow> separated (spcs ! i) (spcs ! j)"
  by (simp add: intervals_ok_def sorted_wrt_iff_nth_less)

lemma pos_end_increasing:
  assumes "intervals_ok n spcs" "i < j" "j < length spcs"
  shows "pos_end_of (spcs ! i) < pos_end_of (spcs ! j)"
  using intervals_ok_separated [OF assms] intervals_ok_nth [OF assms(1), of i]
    intervals_ok_nth [OF assms(1), of j] assms
  by (intro pos_end_of_mono) simp_all

lemma pos_end_nonneg_iff: "0 \<le> pos_end_of spot \<longleftrightarrow> 18 \<le> fst spot + snd spot"
proof -
  have "0 \<le> pos_end_of spot \<longleftrightarrow> 18 \<le> real (fst spot + snd spot)"
    by (auto simp: pos_end_of_def offset_def time_stride_def field_simps)
  also have "\<dots> \<longleftrightarrow> 18 \<le> fst spot + snd spot"
    by (metis of_nat_le_iff of_nat_numeral)
  finally show ?thesis .
qed

lemma pos_end_lower_bound: "- 0.18 \<le> pos_end_of spot"
  by (simp add: pos_end_of_def offset_def time_stride_def)

lemma hms_minus_one: "hms (- 1) = ''23:59:59''"
proof -
  have "\<lfloor>- 1 :: real\<rfloor> = - 1" by linarith
  then show ?thesis by (simp add: py_defs Let_def)
qed

lemma hms_early_boundary:
  assumes "fst spot + snd spot < 18"
  shows "hms (pos_end_of spot) = ''23:59:59''"
proof -
  from assms have "pos_end_of spot < 0" using pos_end_nonneg_iff [of spot] by simp
  with pos_end_lower_bound [of spot] have "\<lfloor>pos_end_of spot\<rfloor> = - 1"
    by (simp add: floor_eq_iff)
  with hms_floor [of "pos_end_of spot"] show ?thesis by (simp add: hms_minus_one)
qed

section \<open>Properties\<close>

text \<open>
  C2 (refinement). The signals the loop emits are, in order, the reports of the
  iterations \<open>0, ..., n - 1\<close> where \<open>n = min (len spaces) (len words - 1)\<close>: iteration \<open>j\<close>
  reports word \<open>j + 1\<close> if it contains a word of \<open>bad_words\<close>, with the previous boundary
  (0 for the first) as start and the boundary of interval \<open>j\<close> as end. Signals emitted
  before an exception are kept.
\<close>

theorem align_emits_reports:
  "fst (align bad_words words spcs) =
     reports bad_words words spcs (min (length spcs) (length words - 1))"
  by (simp add: align_result)

theorem align_emits_reports_witness:
  "fst (align [''bad''] [''the'', ''bad'', ''fox'', ''bad''] [(10, 12), (30, 40), (90, 110)])
     = [''bad Start: 00:00:00 End: 00:00:00'', ''bad Start: 00:00:00 End: 00:00:01'']"
  using align_emits_reports [of "[''bad'']" "[''the'', ''bad'', ''fox'', ''bad'']"
      "[(10, 12), (30, 40), (90, 110)]"]
  by (simp add: run_defs py_defs upt_rec)

text \<open>
  C6 (error). The loop raises, and the exception is the \<open>IndexError\<close> of \<open>words[j + 1]\<close>,
  exactly when \<open>bad_words\<close> is not empty, there is at least one silence interval, and
  there are at least as many intervals as words. With an empty \<open>bad_words\<close> the word is
  never looked up and the loop cannot fail.
\<close>

theorem align_raises_iff:
  "snd (align bad_words words spcs) =
     (if bad_words \<noteq> [] \<and> spcs \<noteq> [] \<and> length words \<le> length spcs
      then Some IndexError else None)"
  by (simp add: align_result)

theorem align_raises_iff_witness:
  "snd (align [''bad''] [''the'', ''bad''] [(0, 1), (60, 70)]) = Some IndexError
   \<and> snd (align [] [''the'', ''bad''] [(0, 1), (60, 70)]) = None"
  using align_raises_iff [of "[''bad'']" "[''the'', ''bad'']" "[(0, 1), (60, 70)]"]
    align_raises_iff [of "[]" "[''the'', ''bad'']" "[(0, 1), (60, 70)]"]
  by simp

text \<open>
  C13 (functional). The first word of the transcript is never examined: replacing it by
  any other word changes neither the emitted signals nor the exception. Interval \<open>j\<close>
  is always paired with word \<open>j + 1\<close>.
\<close>

theorem align_ignores_first_word:
  "align bad_words (w # words) spcs = align bad_words (w' # words) spcs"
  by (simp add: align_result reports_first_word [of bad_words w words spcs _ w'])

theorem align_ignores_first_word_witness:
  "align [''bad''] [''bad'', ''fox''] [(10, 12)] = ([], None)"
  using align_ignores_first_word [of "[''bad'']" "''bad''" "[''fox'']" "[(10, 12)]" "''good''"]
  by (simp add: run_defs py_defs)

text \<open>
  C15 (invariant). Along the intervals returned by the segmenter the boundary times
  strictly increase: a later interval always yields a later end time. So every report
  but possibly the first has its start before its end, and reports are emitted in
  ascending order of time.
\<close>

theorem boundary_times_increase:
  assumes "segment probs = Inr spcs" and "i < j" and "j < length spcs"
  shows "pos_end_of (spcs ! i) < pos_end_of (spcs ! j)"
  using pos_end_increasing [OF segment_intervals_wf assms(2,3)] assms(1)
  by simp

theorem boundary_times_increase_witness:
  "pos_end_of ([(0, 0), (2, 2)] ! 0) < pos_end_of ([(0, 0), (2, 2)] ! 1)"
  using boundary_times_increase [of "[[0.9, 0.1], [0.2, 0.8], [0.7, 0.3]]" "[(0, 0), (2, 2)]" 0 1]
  by (simp add: run_defs py_defs upt_rec)

text \<open>
  C14 (bounds). For well-formed intervals the start time of report \<open>j\<close> is at most its end
  time exactly when \<open>j > 0\<close> or the first interval has its midpoint at frame 9 or later
  (\<open>start + end \<ge> 18\<close>). For an earlier first interval the calibration offset of -0.18 s
  makes the end time negative while the start time is 0.
\<close>

theorem report_start_le_end_iff:
  assumes "intervals_ok n spcs" and "j < length spcs"
  shows "start_of spcs j \<le> pos_end_of (spcs ! j)
         \<longleftrightarrow> 0 < j \<or> 18 \<le> fst (spcs ! 0) + snd (spcs ! 0)"
proof (cases j)
  case 0
  then show ?thesis by (simp add: pos_end_nonneg_iff)
next
  case (Suc k)
  with pos_end_increasing [OF assms(1), of k j] assms(2) show ?thesis
    by (simp add: less_imp_le)
qed

theorem report_start_le_end_iff_witness:
  "\<not> start_of [(0, 1), (60, 70)] 0 \<le> pos_end_of ([(0, 1), (60, 70)] ! 0)
   \<and> start_of [(0, 1), (60, 70)] 1 \<le> pos_end_of ([(0, 1), (60, 70)] ! 1)"
  using report_start_le_end_iff [of 100 "[(0, 1), (60, 70)]" 0]
    report_start_le_end_iff [of 100 "[(0, 1), (60, 70)]" 1]
  by (simp add: intervals_ok_def separated_def)

text \<open>
  C24 (functional). A first silence interval whose midpoint lies before frame 9 gets a
  negative end time, and its printed form is \<open>23:59:59\<close>: the report of such a word reads
  \<open>Start: 00:00:00 End: 23:59:59\<close>.
\<close>

theorem early_boundary_wraps:
  assumes "fst spot + snd spot < 18"
  shows "pos_end_of spot < 0 \<and> hms (pos_end_of spot) = ''23:59:59''"
  using assms hms_early_boundary [OF assms] pos_end_nonneg_iff [of spot] by simp

theorem early_boundary_wraps_witness:
  "pos_end_of (0, 1) < 0 \<and> hms (pos_end_of (0, 1)) = ''23:59:59''"
  using early_boundary_wraps [of "(0, 1)"] by simp

text \<open>
  C25 (functional). If \<open>bad_words\<close> contains the empty string, every iteration reports
  its word, whatever the word is, because the empty string is a substring of every
  string: the number of signals is \<open>min (len spaces) (len words - 1)\<close>.
\<close>

theorem empty_keyword_reports_all:
  assumes "[] \<in> set bad_words"
  shows "length (fst (align bad_words words spcs)) = min (length spcs) (length words - 1)"
  using assms by (simp add: align_result length_reports_empty_keyword)

theorem empty_keyword_reports_all_witness:
  "length (fst (align [''bad'', []] [''a'', ''nice'', ''day''] [(20, 30), (50, 60)])) = 2"
  using empty_keyword_reports_all [of "[''bad'', []]" "[''a'', ''nice'', ''day'']" "[(20, 30), (50, 60)]"]
  by simp

end
