(* ===== verification/Keywords.thy ===== *)
theory Keywords
  imports PyString
begin

text \<open>
  \<open>MainWindow.get_bad_words\<close> (\<open>src/main/python/main_window.py\<close>, lines 94-99): the
  text of the word-list field is lower-cased, its whitespace is collapsed to single
  blanks, and the result is cut at the commas and each piece stripped; an empty text
  gives the empty list. \<open>get_bad_words\<close> is that function of the field's text (the
  handler stores its value in \<open>self.bad_words\<close>); the \<open>except\<close> branch is dead in the
  model, since none of the string methods raises.

  \<open>keyword_ok\<close> is the normal form the entries have. The lemmas show that every entry is
  in normal form, that the list is empty only for a text of whitespace, how many
  entries there are, and that a trailing comma produces an empty entry.
\<close>

section \<open>Definitions\<close>

definition normalise :: "string \<Rightarrow> string" where
  "normalise plain = join '' '' (split_ws (lower plain))"

definition get_bad_words :: "string \<Rightarrow> string list" where
  "get_bad_words plain =
     (let text = normalise plain
      in if text \<noteq> [] then map strip (split_on CHR '','' text) else [])"

definition keyword_ok :: "string \<Rightarrow> bool" where
  "keyword_ok k = (CHR '','' \<notin> set k \<and> list_all (\<lambda>c. \<not> isupper c) k \<and> strip k = k)"

lemmas [run_defs] = normalise_def get_bad_words_def keyword_ok_def

section \<open>Lemmas\<close>

lemma set_normalise: "set (normalise plain) \<subseteq> insert CHR '' '' (set (lower plain))"
  using set_join [of "'' ''" "split_ws (lower plain)"] set_concat_split_ws [of "lower plain"]
  by (auto simp: normalise_def)

lemma normalise_no_upper: "c \<in> set (normalise plain) \<Longrightarrow> \<not> isupper c"
proof -
  assume "c \<in> set (normalise plain)"
  with set_normalise [of plain] have "c = CHR '' '' \<or> c \<in> set (lower plain)" by auto
  then show ?thesis by (auto dest: lower_no_upper)
qed

lemma normalise_Nil_iff: "normalise plain = [] \<longleftrightarrow> (\<forall>c \<in> set plain. isspace c)"
  by (simp add: normalise_def join_Nil_iff_words split_ws_words_ok split_ws_Nil_iff)

lemma get_bad_words_Nil_iff: "get_bad_words plain = [] \<longleftrightarrow> (\<forall>c \<in> set plain. isspace c)"
  by (auto simp: get_bad_words_def Let_def normalise_Nil_iff)

lemma keyword_ok_strip_piece:
  assumes "w \<in> set (split_on CHR '','' (normalise plain))"
  shows "keyword_ok (strip w)"
proof -
  from assms have "CHR '','' \<notin> set w" by (rule split_on_no_sep)
  moreover from assms have "\<forall>c \<in> set w. \<not> isupper c"
    by (auto dest!: set_split_on normalise_no_upper)
  ultimately show ?thesis
    using set_strip [of w] by (auto simp: keyword_ok_def list_all_iff)
qed

lemma get_bad_words_ok: "list_all keyword_ok (get_bad_words plain)"
  by (auto simp: get_bad_words_def Let_def list_all_iff keyword_ok_strip_piece)

lemma count_commas_normalise:
  "count_list (normalise plain) CHR '','' = count_list plain CHR '',''"
  by (simp add: normalise_def count_list_join_blank concat_split_ws count_list_filter_other
      count_list_lower_comma)

lemma length_get_bad_words:
  "get_bad_words plain \<noteq> [] \<Longrightarrow> length (get_bad_words plain) = Suc (count_list plain CHR '','')"
  by (auto simp: get_bad_words_def Let_def length_split_on count_commas_normalise split: if_splits)

lemma normalise_trailing_comma:
  "\<exists>t. normalise (plain @ '','') = t @ '',''"
proof -
  let ?ws = "split_ws (lower (plain @ '',''))"
  have c: "concat ?ws = filter (\<lambda>c. \<not> isspace c) (lower plain) @ '',''"
    by (simp add: concat_split_ws lower_def lower_char_def isupper_def)
  then have ne: "?ws \<noteq> []" by auto
  have ok: "list_all word_ok ?ws" by (rule split_ws_words_ok)
  from ne ok have lne: "last ?ws \<noteq> []" by (auto simp: list_all_iff word_ok_def)
  from last_concat_words [OF ne ok] c have "last (last ?ws) = CHR '',''" by simp
  with last_join [OF ne lne, of "'' ''"] have l: "last (normalise (plain @ '','')) = CHR '',''"
    by (simp add: normalise_def)
  have "normalise (plain @ '','') \<noteq> []"
    by (simp add: normalise_Nil_iff)
  with l show ?thesis by (metis append_butlast_last_id)
qed

lemma trailing_comma_empty_entry: "[] \<in> set (get_bad_words (plain @ '',''))"
proof -
  from normalise_trailing_comma obtain t where t: "normalise (plain @ '','') = t @ '',''" by blast
  then show ?thesis
    by (simp add: get_bad_words_def Let_def split_on_snoc_sep)
qed

section \<open>Properties\<close>

text \<open>
  C12 (invariant). Every entry of the list \<open>get_bad_words\<close> computes is in normal form:
  it holds no comma and no upper-case letter, and it has no whitespace at its ends
  (stripping it changes nothing).
\<close>

theorem get_bad_words_normal_form: "list_all keyword_ok (get_bad_words plain)"
  by (rule get_bad_words_ok)

theorem get_bad_words_normal_form_witness:
  "get_bad_words '' Bad,  Very   UGLY ,x'' = [''bad'', ''very ugly'', ''x'']
   \<and> list_all keyword_ok [''bad'', ''very ugly'', ''x'']"
  using get_bad_words_normal_form [of "'' Bad,  Very   UGLY ,x''"]
  by (simp add: run_defs py_defs)

text \<open>
  C26 (functional). The list is empty exactly when the text consists of whitespace
  only; otherwise it has one entry more than the text has commas. So the test
  \<open>if not len(self.bad_words)\<close> of the start handler rejects blank input and nothing
  else: a text of commas alone passes it.
\<close>

theorem get_bad_words_length:
  "length (get_bad_words plain) =
     (if \<forall>c \<in> set plain. isspace c then 0 else Suc (count_list plain CHR '',''))"
  using get_bad_words_Nil_iff [of plain] length_get_bad_words [of plain]
  by (auto simp del: length_0_conv)

theorem get_bad_words_length_witness:
  "length (get_bad_words ''  '') = 0 \<and> length (get_bad_words '','') = 2"
  using get_bad_words_length [of "''  ''"] get_bad_words_length [of "'',''"]
  by (simp add: py_defs)

end
