(* ===== verification/Detector.thy ===== *)
theory Detector
  imports Aligner Keywords
begin

text \<open>
  \<open>DetectorThread.run\<close> as a whole (\<open>src/main/python/main_window.py\<close>, lines 215-289).

  The speech model is outside the program; the record \<open>asr_model\<close> holds what its two
  calls return for a list of files: \<open>transcribe\<close> the list of texts and
  \<open>transcribe_logprobs\<close> the list of matrices of log-probabilities, each possibly an
  exception. \<open>first_transcript\<close> (line 235) and \<open>first_logits\<close> (line 238) are the two
  calls as the program makes them, on the one-element list \<open>[self.file]\<close> and followed by
  the index \<open>[0]\<close>, which raises \<open>IndexError\<close> when the model answers with an empty list.
  \<open>detect\<close> is
  the body of the \<open>try\<close> block: both calls, \<open>softmax\<close>, the segmenter, \<open>split\<close> and the
  alignment loop; it returns the progress signals emitted and the exception that ended
  it, if any. \<open>detector_run\<close> adds the handler (the exception is appended to the log
  file) and the \<open>finally\<close> clause (the \<open>finished\<close> signal); its value is everything the
  thread does that the rest of the program can observe: the signals in the order of
  emission, and the lines added to the log. Writing the log is assumed not to raise.

  The lemmas show that \<open>finished\<close> is emitted exactly once and last on every path, that
  the log receives an entry exactly when the run is cut short, and give the signals
  in closed form when the model answers.
\<close>

section \<open>Definitions\<close>

record asr_model =
  transcribe :: "string list \<Rightarrow> string list result"
  transcribe_logprobs :: "string list \<Rightarrow> matrix list result"

datatype signal = Progress string | Finished

record thread_trace =
  signals :: "signal list"
  log :: "py_error list"

definition first_transcript :: "asr_model \<Rightarrow> string \<Rightarrow> string result" where
  "first_transcript model file = and_then (transcribe model [file]) (\<lambda>ts. py_nth ts 0)"

definition first_logits :: "asr_model \<Rightarrow> string \<Rightarrow> matrix result" where
  "first_logits model file = and_then (transcribe_logprobs model [file]) (\<lambda>ls. py_nth ls 0)"

definition detect :: "asr_model \<Rightarrow> string \<Rightarrow> string list \<Rightarrow> string list \<times> py_error option" where
  "detect model file bad_words =
     (case and_then (first_transcript model file) (\<lambda>transcript.
           and_then (first_logits model file) (\<lambda>logits.
           and_then (softmax logits) (\<lambda>probs.
           and_then (segment probs) (\<lambda>spcs. Inr (transcript, spcs))))) of
        Inl err \<Rightarrow> ([], Some err)
      | Inr (transcript, spcs) \<Rightarrow> align bad_words (split_ws transcript) spcs)"

definition detector_run :: "asr_model \<Rightarrow> string \<Rightarrow> string list \<Rightarrow> thread_trace" where
  "detector_run model file bad_words =
     (case detect model file bad_words of
        (emitted, err) \<Rightarrow>
          \<lparr>signals = map Progress emitted @ [Finished],
           log = (case err of None \<Rightarrow> [] | Some e \<Rightarrow> [e])\<rparr>)"

lemmas [run_defs] = first_transcript_def first_logits_def detect_def detector_run_def

section \<open>Lemmas\<close>

lemma signals_detector_run:
  "signals (detector_run model file bad_words) =
     map Progress (fst (detect model file bad_words)) @ [Finished]"
  by (simp add: detector_run_def split: prod.splits)

lemma log_detector_run:
  "log (detector_run model file bad_words) =
     (case snd (detect model file bad_words) of None \<Rightarrow> [] | Some e \<Rightarrow> [e])"
  by (simp add: detector_run_def split: prod.splits)

lemma count_list_map_Progress [simp]: "count_list (map Progress xs) Finished = 0"
  by (induction xs) simp_all

lemma detect_model_raises:
  "first_transcript model file = Inl e \<Longrightarrow> detect model file bad_words = ([], Some e)"
  "first_transcript model file = Inr t \<Longrightarrow> first_logits model file = Inl e \<Longrightarrow>
     detect model file bad_words = ([], Some e)"
  by (simp_all add: detect_def)

lemma detect_answers:
  assumes "first_transcript model file = Inr transcript"
    and "first_logits model file = Inr logits"
  shows "detect model file bad_words =
     (case softmax logits of
        Inl e \<Rightarrow> ([], Some e)
      | Inr probs \<Rightarrow>
          (case segment logits of
             Inl e \<Rightarrow> ([], Some e)
           | Inr spcs \<Rightarrow> align bad_words (split_ws transcript) spcs))"
proof (cases "softmax logits")
  case (Inl e)
  with assms show ?thesis by (simp add: detect_def)
next
  case (Inr probs)
  then have "segment probs = segment logits" by (rule segment_softmax_eq)
  with assms Inr show ?thesis
    by (cases "segment logits") (simp_all add: detect_def)
qed

lemma detect_shaped:
  assumes "first_transcript model file = Inr transcript"
    and "first_logits model file = Inr logits"
    and "shape_ok T V logits" and "0 < T" and "0 < V"
  shows "detect model file bad_words =
           align bad_words (split_ws transcript) (seg_classes (map frame_class logits))"
proof -
  from assms(3-5) obtain mx where "np_max logits = Inr mx"
    using np_max_shape by blast
  then have sm: "softmax logits = Inr (map (softmax_row mx) logits)"
    by (simp add: softmax_def)
  from assms(3-5) have "logits \<noteq> []" "[] \<notin> set logits"
    by (auto simp: shape_ok_def list_all_iff)
  then have "segment logits = Inr (seg_classes (map frame_class logits))"
    by (simp add: segment_result)
  with sm show ?thesis
    by (simp add: detect_answers [OF assms(1,2)])
qed

lemma detect_example:
  "fst (detect \<lparr>transcribe = (\<lambda>fs. Inr [''the quick bad fox'']),
                transcribe_logprobs = (\<lambda>fs. Inr [[[- 3, - 1], [- 1, - 2], [- 1, - 3], [- 4, - 1]]])\<rparr>
         path [''quick''])
     = [''quick Start: 00:00:00 End: 23:59:59'']"
proof -
  let ?logits = "[[- 3, - 1], [- 1, - 2], [- 1, - 3], [- 4, - 1]] :: matrix"
  let ?M = "\<lparr>transcribe = (\<lambda>fs. Inr [''the quick bad fox'']),
             transcribe_logprobs = (\<lambda>fs. Inr [?logits])\<rparr>"
  have spcs: "seg_classes (map frame_class ?logits) = [(1, 2)]"
    by (simp add: seg_classes_def seg_run_def frame_class_def argmax_def seg_step_def
        seg_start_def seg_finish_def upt_rec)
  have ws: "split_ws ''the quick bad fox'' = [''the'', ''quick'', ''bad'', ''fox'']"
    by (simp add: py_defs)
  have sh: "shape_ok 4 2 ?logits"
    by (simp add: shape_ok_def)
  have "detect ?M path [''quick'']
      = align [''quick''] (split_ws ''the quick bad fox'') (seg_classes (map frame_class ?logits))"
    by (rule detect_shaped [OF _ _ sh]) (simp_all add: first_transcript_def first_logits_def)
  then have "detect ?M path [''quick'']
      = align [''quick''] [''the'', ''quick'', ''bad'', ''fox''] [(1, 2)]"
    by (simp only: spcs ws)
  moreover have "hit [''quick''] ''quick''"
    by (simp add: run_defs py_defs)
  ultimately show ?thesis
    by (simp add: align_result reports_def report_at_def format_result_def hms_zero
        hms_early_boundary)
qed

lemma detect_emits_nonempty: "r \<in> set (fst (detect model f bw)) \<Longrightarrow> r \<noteq> []"
  by (auto simp: detect_def align_emits_nonempty split: sum.splits prod.splits)

lemma filter_nonempty_detect [simp]:
  "filter (\<lambda>r. r \<noteq> []) (fst (detect model f bw)) = fst (detect model f bw)"
  by (simp add: filter_id_conv detect_emits_nonempty)

section \<open>Properties\<close>

text \<open>
  C9 (liveness). Whatever the model returns or raises and whatever the inputs are, the
  detector thread emits the \<open>finished\<close> signal exactly once, as its last signal; every
  signal before it is a progress signal. The window is therefore always told that the
  detection has ended.
\<close>

theorem detector_run_finishes:
  "last (signals (detector_run model file bad_words)) = Finished
   \<and> count_list (signals (detector_run model file bad_words)) Finished = 1"
  by (simp add: signals_detector_run count_list_append)

theorem detector_run_finishes_witness:
  "signals (detector_run \<lparr>transcribe = (\<lambda>fs. Inl (External ''no such file'')),
                          transcribe_logprobs = (\<lambda>fs. Inr [])\<rparr> ''a.wav'' [''bad''])
     = [Finished]"
  using detector_run_finishes [of "\<lparr>transcribe = (\<lambda>fs. Inl (External ''no such file'')),
      transcribe_logprobs = (\<lambda>fs. Inr [])\<rparr>" "''a.wav''" "[''bad'']"]
  by (simp add: run_defs)

text \<open>
  C21 (error). If one of the two calls of the speech model raises, or answers with
  an empty list so that the index \<open>[0]\<close> raises, the thread emits no progress signal at
  all, writes that exception to the log and emits \<open>finished\<close>: the failure of the
  collaborator is recorded, not swallowed, and no partial result is shown.
\<close>

theorem detector_run_model_error:
  assumes "first_transcript model file = Inl e
           \<or> (\<exists>t. first_transcript model file = Inr t \<and> first_logits model file = Inl e)"
  shows "detector_run model file bad_words = \<lparr>signals = [Finished], log = [e]\<rparr>"
  using assms by (auto simp: detector_run_def detect_model_raises)

theorem detector_run_model_error_witness:
  "detector_run \<lparr>transcribe = (\<lambda>fs. Inr [''the bad fox'']),
                 transcribe_logprobs = (\<lambda>fs. Inl (External ''out of memory''))\<rparr> ''a.wav'' [''bad'']
     = \<lparr>signals = [Finished], log = [External ''out of memory'']\<rparr> \<and>
   detector_run \<lparr>transcribe = (\<lambda>fs. Inr []),
                 transcribe_logprobs = (\<lambda>fs. Inr [[[- 1, - 2]]])\<rparr> ''a.wav'' [''bad'']
     = \<lparr>signals = [Finished], log = [IndexError]\<rparr>"
  using detector_run_model_error [of "\<lparr>transcribe = (\<lambda>fs. Inr [''the bad fox'']),
      transcribe_logprobs = (\<lambda>fs. Inl (External ''out of memory''))\<rparr>" "''a.wav''"
      "External ''out of memory''" "[''bad'']"]
    detector_run_model_error [of "\<lparr>transcribe = (\<lambda>fs. Inr []),
      transcribe_logprobs = (\<lambda>fs. Inr [[[- 1, - 2]]])\<rparr>" "''a.wav''" IndexError "[''bad'']"]
  by (simp add: first_transcript_def first_logits_def)

text \<open>
  C3 (functional). When the model answers with a transcript and a matrix of shape
  \<open>(T, V)\<close> with \<open>T, V > 0\<close>, the whole run is determined in closed form: with \<open>spcs\<close> the
  silence intervals of the rows' arg-max classes (softmax plays no role) and \<open>words\<close>
  the whitespace-separated words of the transcript, the thread emits the reports of
  the first \<open>min (len spcs) (len words - 1)\<close> intervals and then \<open>finished\<close>; the log gets
  one \<open>IndexError\<close> exactly when \<open>bad_words\<close> is not empty and there are at least as many
  intervals (and at least one) as words.
\<close>

theorem detector_run_closed_form:
  assumes "first_transcript model file = Inr transcript"
    and "first_logits model file = Inr logits"
    and "shape_ok T V logits" and "0 < T" and "0 < V"
    and "spcs = seg_classes (map frame_class logits)"
    and "ws = split_ws transcript"
  shows "detector_run model file bad_words =
     \<lparr>signals = map Progress (reports bad_words ws spcs (min (length spcs) (length ws - 1)))
                 @ [Finished],
      log = (if bad_words \<noteq> [] \<and> spcs \<noteq> [] \<and> length ws \<le> length spcs
             then [IndexError] else [])\<rparr>"
  using detect_shaped [OF assms(1-5), of bad_words] assms(6,7)
  by (simp add: detector_run_def align_result)

theorem detector_run_closed_form_witness:
  "detector_run
     \<lparr>transcribe = (\<lambda>fs. Inr [''the quick bad fox'']),
      transcribe_logprobs = (\<lambda>fs. Inr [[[- 3, - 1], [- 1, - 2], [- 1, - 3], [- 4, - 1]]])\<rparr>
     ''outfile.wav'' [''bad'']
   = \<lparr>signals = [Finished], log = []\<rparr>"
proof -
  let ?logits = "[[- 3, - 1], [- 1, - 2], [- 1, - 3], [- 4, - 1]] :: matrix"
  have spcs: "[(1, 2)] = seg_classes (map frame_class ?logits)"
    by (simp add: seg_classes_def seg_run_def frame_class_def argmax_def seg_step_def
        seg_start_def seg_finish_def upt_rec)
  have ws: "[''the'', ''quick'', ''bad'', ''fox''] = split_ws ''the quick bad fox''"
    by (simp add: py_defs)
  have sh: "shape_ok 4 2 ?logits"
    by (simp add: shape_ok_def)
  from detector_run_closed_form [OF _ _ sh _ _ spcs ws, of
      "\<lparr>transcribe = (\<lambda>fs. Inr [''the quick bad fox'']),
        transcribe_logprobs = (\<lambda>fs. Inr [?logits])\<rparr>" "''outfile.wav''" "[''bad'']"]
  show ?thesis
    by (simp add: reports_def report_at_def hit_def first_transcript_def first_logits_def)
qed

end
