(* ===== verification/Controller.thy ===== *)
theory Controller
  imports Workers Detector
begin

text \<open>
  \<open>MainWindow\<close> of \<open>src/main/python/main_window.py\<close> (lines 16-156) as a state machine.

  The record \<open>window\<close> holds the attributes the class assigns in \<open>__init__\<close> and the
  widget properties its handlers read or write. A handler is a function on that record
  with the name it has in the source; \<open>handle\<close> dispatches an \<open>event\<close> to its handler;
  \<open>can_occur\<close> says when Qt can deliver the event (a click needs an enabled widget, a
  signal needs a started thread that has not been deleted); \<open>reachable\<close> is the set of
  states the window can be in.

  A thread attribute is \<open>None\<close> or a thread object with the arguments of its constructor
  and a status. The handlers call \<open>terminate()\<close> and \<open>deleteLater()\<close> together, so the model
  has two statuses: \<open>Started\<close> and \<open>Deleted\<close>. A call on a deleted object raises
  \<open>RuntimeError\<close>, a call on \<open>None\<close> raises \<open>AttributeError\<close>. An exception that leaves a
  handler ends the program, so a handler that can raise returns a \<open>result\<close>, and the
  assignments the handler made before the exception are not kept (\<open>reachable\<close> never
  takes such a step: \<open>handle_total\<close>).

  The arguments of the events are what the environment supplies: \<open>BtnOpen\<close> carries the
  answer of the file dialog (empty when the user cancels), \<open>BtnStart\<close> the current
  directory, \<open>ModelLoadingFinished\<close> and \<open>DetectingProgress\<close> the value of the signal.
  \<open>EditBadWords\<close> is the user typing into the word field; it has no handler in the source,
  which reads the text in \<open>get_bad_words\<close>.

  The attribute \<open>self.file\<close> is the field \<open>self_file\<close> (\<open>file\<close> is a keyword of the
  theory language).

  What is assumed of the generated user interface: the buttons and the text fields are
  children of the central widget, and they start enabled and empty.
\<close>

section \<open>State\<close>

datatype thread_status = Started | Deleted

datatype 'a thread = Thread (args: 'a) (status: thread_status)

datatype dialog = Critical string | Information string

record 'm window =
  model_thread :: "string thread option"
  convert_thread :: "(string \<times> string) thread option"
  api_thread :: "(string option \<times> string list \<times> 'm option) thread option"
  asr_model :: "'m option"
  self_file :: "string option"
  bad_words :: "string list"
  spinner_on :: bool
  central_enabled :: bool
  btnLoadModel_enabled :: bool
  status_message :: string
  edtFilePath :: string
  txtBadWords :: string
  listResult :: "string list"
  dialogs :: "dialog list"

definition init_window :: "'m window" where
  "init_window =
     \<lparr>model_thread = None, convert_thread = None, api_thread = None, asr_model = None,
      self_file = None, bad_words = [], spinner_on = False, central_enabled = True,
      btnLoadModel_enabled = True, status_message = [], edtFilePath = [], txtBadWords = [],
      listResult = [], dialogs = []\<rparr>"

section \<open>Thread objects\<close>

definition start_thread :: "'a \<Rightarrow> 'a thread option" where
  "start_thread a = Some (Thread a Started)"

definition terminate_thread :: "'a thread option \<Rightarrow> 'a thread option result" where
  "terminate_thread t =
     (case t of
        None \<Rightarrow> Inl AttributeError
      | Some th \<Rightarrow>
          (if status th = Deleted then Inl RuntimeError else Inr (Some (Thread (args th) Deleted))))"

definition is_started :: "'a thread option \<Rightarrow> bool" where
  "is_started t = (case t of None \<Rightarrow> False | Some th \<Rightarrow> status th = Started)"

section \<open>Handlers\<close>

definition close_thread :: "'a thread option \<Rightarrow> 'a thread option result" where
  "close_thread t = (if t = None then Inr None else terminate_thread t)"

definition closeEvent :: "'m window \<Rightarrow> 'm window" where
  "closeEvent s =
     (case close_thread (api_thread s) of
        Inl _ \<Rightarrow> s
      | Inr a \<Rightarrow>
          (case close_thread (model_thread s) of
             Inl _ \<Rightarrow> s\<lparr>api_thread := a\<rparr>
           | Inr m \<Rightarrow>
               (case close_thread (convert_thread s) of
                  Inl _ \<Rightarrow> s\<lparr>api_thread := a, model_thread := m\<rparr>
                | Inr c \<Rightarrow> s\<lparr>api_thread := a, model_thread := m, convert_thread := c\<rparr>)))"

definition on_btnLoadModel_clicked :: "'m window \<Rightarrow> 'm window" where
  "on_btnLoadModel_clicked s =
     (if asr_model s \<noteq> None then s
      else s\<lparr>status_message := ''Loading model...'', spinner_on := True,
             central_enabled := False,
             model_thread := start_thread ''stt_en_jasper10x5dr.nemo''\<rparr>)"

definition onModelLoadingFinished :: "'m \<Rightarrow> 'm window \<Rightarrow> 'm window result" where
  "onModelLoadingFinished m s =
     and_then (terminate_thread (model_thread s)) (\<lambda>t.
       Inr (s\<lparr>asr_model := Some m, spinner_on := False, central_enabled := True,
              status_message := ''Model prepaired'', btnLoadModel_enabled := False,
              model_thread := t\<rparr>))"

definition on_btnOpen_clicked :: "string \<Rightarrow> 'm window \<Rightarrow> 'm window" where
  "on_btnOpen_clicked chosen s =
     (if chosen = [] then s else s\<lparr>self_file := Some chosen, edtFilePath := chosen\<rparr>)"

definition outfile_in :: "string \<Rightarrow> string" where
  "outfile_in cwd = cwd @ ''/outfile.wav''"

definition on_btnStart_clicked :: "string \<Rightarrow> 'm window \<Rightarrow> 'm window" where
  "on_btnStart_clicked cwd s =
     (if asr_model s = None then
        s\<lparr>dialogs := dialogs s @ [Critical ''Please load model first.'']\<rparr>
      else case self_file s of
        None \<Rightarrow> s\<lparr>dialogs := dialogs s @ [Critical ''Please open audio file to detect.'']\<rparr>
      | Some f \<Rightarrow>
          (if f = [] then
             s\<lparr>dialogs := dialogs s @ [Critical ''Please open audio file to detect.'']\<rparr>
           else
             (let s1 = s\<lparr>bad_words := get_bad_words (txtBadWords s)\<rparr> in
              if length (bad_words s1) = 0 then
                s1\<lparr>dialogs := dialogs s1 @ [Critical ''Please type bad words.'']\<rparr>
              else
                s1\<lparr>spinner_on := True, listResult := [], central_enabled := False,
                    status_message := ''Converting audio file to wav...'',
                    convert_thread := start_thread (f, outfile_in cwd),
                    self_file := Some (outfile_in cwd)\<rparr>)))"

definition onConvertingFinished :: "'m window \<Rightarrow> 'm window result" where
  "onConvertingFinished s =
     (case terminate_thread (convert_thread s) of
        Inl _ \<Rightarrow> Inl TypeError
      | Inr t \<Rightarrow>
          Inr (s\<lparr>convert_thread := t,
                 api_thread := start_thread (self_file s, bad_words s, asr_model s),
                 status_message := ''Transcribing...''\<rparr>))"

definition onDetectingProgress :: "string \<Rightarrow> 'm window \<Rightarrow> 'm window" where
  "onDetectingProgress r s = (if r = [] then s else s\<lparr>listResult := listResult s @ [r]\<rparr>)"

definition onDetectingFinished :: "'m window \<Rightarrow> 'm window result" where
  "onDetectingFinished s =
     and_then (terminate_thread (api_thread s)) (\<lambda>t.
       Inr (s\<lparr>api_thread := t, spinner_on := False, central_enabled := True,
              status_message := ''Detection is finished.'',
              dialogs := dialogs s @
                [Information (''Finished detection.'' @ [CHR 0x0A] @ ''Please check the result list.'')]\<rparr>))"

section \<open>Events\<close>

datatype 'm event =
    BtnLoadModel
  | ModelLoadingFinished 'm
  | BtnOpen string
  | EditBadWords string
  | BtnStart string
  | ConvertingFinished
  | DetectingProgress string
  | DetectingFinished

fun handle :: "'m event \<Rightarrow> 'm window \<Rightarrow> 'm window result" where
  "handle BtnLoadModel s = Inr (on_btnLoadModel_clicked s)"
| "handle (ModelLoadingFinished m) s = onModelLoadingFinished m s"
| "handle (BtnOpen chosen) s = Inr (on_btnOpen_clicked chosen s)"
| "handle (EditBadWords txt) s = Inr (s\<lparr>txtBadWords := txt\<rparr>)"
| "handle (BtnStart cwd) s = Inr (on_btnStart_clicked cwd s)"
| "handle ConvertingFinished s = onConvertingFinished s"
| "handle (DetectingProgress r) s = Inr (onDetectingProgress r s)"
| "handle DetectingFinished s = onDetectingFinished s"

fun can_occur :: "'m event \<Rightarrow> 'm window \<Rightarrow> bool" where
  "can_occur BtnLoadModel s = (central_enabled s \<and> btnLoadModel_enabled s)"
| "can_occur (ModelLoadingFinished m) s = is_started (model_thread s)"
| "can_occur (BtnOpen chosen) s = central_enabled s"
| "can_occur (EditBadWords txt) s = central_enabled s"
| "can_occur (BtnStart cwd) s = central_enabled s"
| "can_occur ConvertingFinished s = is_started (convert_thread s)"
| "can_occur (DetectingProgress r) s = is_started (api_thread s)"
| "can_occur DetectingFinished s = is_started (api_thread s)"

inductive reachable :: "'m window \<Rightarrow> bool" where
  init: "reachable init_window"
| step: "reachable s \<Longrightarrow> can_occur ev s \<Longrightarrow> handle ev s = Inr s' \<Longrightarrow> reachable s'"

fun run_events :: "'m event list \<Rightarrow> 'm window \<Rightarrow> 'm window option" where
  "run_events [] s = Some s"
| "run_events (ev # evs) s =
     (if can_occur ev s
      then (case handle ev s of Inr s' \<Rightarrow> run_events evs s' | Inl _ \<Rightarrow> None)
      else None)"

text \<open>
  The connections of the signals (lines 70, 121, 135-136): what a thread emits arrives
  at the window as the event of the connected handler.
\<close>

fun signal_event :: "signal \<Rightarrow> 'm event" where
  "signal_event (Progress r) = DetectingProgress r"
| "signal_event Finished = DetectingFinished"

fun action_event :: "'m action \<Rightarrow> 'm event list" where
  "action_event (EmitFinishedWith m) = [ModelLoadingFinished m]"
| "action_event EmitFinished = [ConvertingFinished]"
| "action_event _ = []"

definition thread_events :: "'m worker_trace \<Rightarrow> 'm event list" where
  "thread_events tr = concat (map action_event (actions tr))"

text \<open>
  The run of the converter the window holds: a started \<open>ConvertThread\<close> executes \<open>run\<close>
  on the two paths its constructor stored (lines 181-186).
\<close>

definition converter_run :: "(string list \<Rightarrow> unit result) \<Rightarrow> 'm window \<Rightarrow> 'm worker_trace option" where
  "converter_run popen s =
     (case convert_thread s of
        None \<Rightarrow> None
      | Some th \<Rightarrow>
          (if status th = Started then Some (convert_run popen (fst (args th)) (snd (args th)))
           else None))"

lemmas [run_defs] = init_window_def start_thread_def terminate_thread_def is_started_def
  close_thread_def closeEvent_def on_btnLoadModel_clicked_def onModelLoadingFinished_def
  on_btnOpen_clicked_def outfile_in_def on_btnStart_clicked_def
  onConvertingFinished_def onDetectingProgress_def onDetectingFinished_def
  thread_events_def converter_run_def

section \<open>The invariant\<close>

text \<open>
  \<open>window_inv\<close>: the spinner runs exactly while the central widget is disabled, which is
  exactly while one of the three threads is started; at most one thread is started; the
  load button is enabled exactly while no model is held, and a held model means the
  loading thread has been deleted; a started converter was given \<open>self.file\<close> as its
  output, with a model and a non-empty word list in place; a started detector was given
  the current \<open>self.file\<close>, \<open>self.bad_words\<close> and \<open>self.asr_model\<close>, none of them empty;
  while a conversion or a detection runs, \<open>self.bad_words\<close> is the normal form of the text
  in the word field.
\<close>

definition is_deleted :: "'a thread option \<Rightarrow> bool" where
  "is_deleted t = (case t of None \<Rightarrow> False | Some th \<Rightarrow> status th = Deleted)"

definition busy :: "'m window \<Rightarrow> bool" where
  "busy s = (is_started (model_thread s) \<or> is_started (convert_thread s) \<or> is_started (api_thread s))"

definition window_inv :: "'m window \<Rightarrow> bool" where
  "window_inv s \<longleftrightarrow>
     (spinner_on s \<longleftrightarrow> \<not> central_enabled s) \<and>
     (central_enabled s \<longleftrightarrow> \<not> busy s) \<and>
     (is_started (model_thread s) \<longrightarrow>
        \<not> is_started (convert_thread s) \<and> \<not> is_started (api_thread s)) \<and>
     (is_started (convert_thread s) \<longrightarrow> \<not> is_started (api_thread s)) \<and>
     (btnLoadModel_enabled s \<longleftrightarrow> asr_model s = None) \<and>
     (is_deleted (model_thread s) \<longleftrightarrow> asr_model s \<noteq> None) \<and>
     (is_started (convert_thread s) \<longrightarrow>
        asr_model s \<noteq> None \<and> bad_words s \<noteq> [] \<and>
        self_file s = map_option (\<lambda>th. snd (args th)) (convert_thread s)) \<and>
     (is_started (api_thread s) \<longrightarrow>
        asr_model s \<noteq> None \<and> bad_words s \<noteq> [] \<and> self_file s \<noteq> None \<and>
        api_thread s = start_thread (self_file s, bad_words s, asr_model s)) \<and>
     (\<not> central_enabled s \<and> \<not> is_started (model_thread s) \<longrightarrow>
        bad_words s = get_bad_words (txtBadWords s))"

section \<open>Thread objects: lemmas\<close>

lemma is_started_simps [simp]:
  "\<not> is_started None"
  "is_started (Some (Thread a st)) \<longleftrightarrow> st = Started"
  "is_started (start_thread a)"
  by (simp_all add: is_started_def start_thread_def)

lemma is_deleted_simps [simp]:
  "\<not> is_deleted None"
  "is_deleted (Some (Thread a st)) \<longleftrightarrow> st = Deleted"
  "\<not> is_deleted (start_thread a)"
  by (simp_all add: is_deleted_def start_thread_def)

lemma thread_option_cases:
  obtains (None) "t = None"
  | (Started) a where "t = Some (Thread a Started)"
  | (Deleted) a where "t = Some (Thread a Deleted)"
proof (cases t)
  case None
  then show ?thesis by (rule that(1))
next
  case (Some th)
  then show ?thesis by (cases th; cases "status th") (auto intro: that)
qed

lemma is_started_iff: "is_started t \<longleftrightarrow> (\<exists>a. t = Some (Thread a Started))"
  by (cases t rule: thread_option_cases) auto

lemma is_deleted_iff: "is_deleted t \<longleftrightarrow> (\<exists>a. t = Some (Thread a Deleted))"
  by (cases t rule: thread_option_cases) auto

lemma terminate_thread_simps [simp]:
  "terminate_thread None = Inl AttributeError"
  "terminate_thread (Some (Thread a Started)) = Inr (Some (Thread a Deleted))"
  "terminate_thread (Some (Thread a Deleted)) = Inl RuntimeError"
  by (simp_all add: terminate_thread_def)

lemma close_thread_simps [simp]:
  "close_thread None = Inr None"
  "close_thread (Some (Thread a Started)) = Inr (Some (Thread a Deleted))"
  "close_thread (Some (Thread a Deleted)) = Inl RuntimeError"
  by (simp_all add: close_thread_def)

section \<open>The handlers that end a thread\<close>

text \<open>
  Each of the three signal handlers returns exactly when its thread is started; the
  state it returns is the one below.
\<close>

lemma onModelLoadingFinished_Inr:
  "onModelLoadingFinished m s = Inr s' \<longleftrightarrow>
     (\<exists>a. model_thread s = Some (Thread a Started) \<and>
          s' = s\<lparr>asr_model := Some m, spinner_on := False, central_enabled := True,
                 status_message := ''Model prepaired'', btnLoadModel_enabled := False,
                 model_thread := Some (Thread a Deleted)\<rparr>)"
  unfolding onModelLoadingFinished_def
  by (cases "model_thread s" rule: thread_option_cases) auto

lemma onConvertingFinished_Inr:
  "onConvertingFinished s = Inr s' \<longleftrightarrow>
     (\<exists>a. convert_thread s = Some (Thread a Started) \<and>
          s' = s\<lparr>convert_thread := Some (Thread a Deleted),
                 api_thread := start_thread (self_file s, bad_words s, asr_model s),
                 status_message := ''Transcribing...''\<rparr>)"
  unfolding onConvertingFinished_def
  by (cases "convert_thread s" rule: thread_option_cases) auto

lemma onDetectingFinished_Inr:
  "onDetectingFinished s = Inr s' \<longleftrightarrow>
     (\<exists>a. api_thread s = Some (Thread a Started) \<and>
          s' = s\<lparr>api_thread := Some (Thread a Deleted), spinner_on := False,
                 central_enabled := True, status_message := ''Detection is finished.'',
                 dialogs := dialogs s @
                   [Information (''Finished detection.'' @ [CHR 0x0A] @ ''Please check the result list.'')]\<rparr>)"
  unfolding onDetectingFinished_def
  by (cases "api_thread s" rule: thread_option_cases) auto

lemma handle_total: "can_occur ev s \<Longrightarrow> \<exists>s'. handle ev s = Inr s'"
  by (cases ev)
    (auto simp: onModelLoadingFinished_Inr onConvertingFinished_Inr onDetectingFinished_Inr
      is_started_iff)

section \<open>Every handler preserves the invariant\<close>

lemma window_inv_init: "window_inv init_window"
  by (simp add: window_inv_def init_window_def busy_def)

lemma window_inv_load:
  assumes "window_inv s" and "central_enabled s"
  shows "window_inv (on_btnLoadModel_clicked s)"
  using assms
  by (auto simp: window_inv_def on_btnLoadModel_clicked_def busy_def)

lemma window_inv_model_finished:
  assumes "window_inv s" and "onModelLoadingFinished m s = Inr s'"
  shows "window_inv s'"
proof -
  from assms(2) obtain a where "model_thread s = Some (Thread a Started)"
    and "s' = s\<lparr>asr_model := Some m, spinner_on := False, central_enabled := True,
                 status_message := ''Model prepaired'', btnLoadModel_enabled := False,
                 model_thread := Some (Thread a Deleted)\<rparr>"
    unfolding onModelLoadingFinished_Inr by blast
  with assms(1) show ?thesis
    by (simp add: window_inv_def busy_def)
qed

lemma window_inv_open:
  assumes "window_inv s" and "central_enabled s"
  shows "window_inv (on_btnOpen_clicked chosen s)"
  using assms by (simp add: window_inv_def on_btnOpen_clicked_def busy_def)

lemma window_inv_edit:
  assumes "window_inv s" and "central_enabled s"
  shows "window_inv (s\<lparr>txtBadWords := typed\<rparr>)"
  using assms by (auto simp: window_inv_def busy_def)

lemma window_inv_start:
  assumes "window_inv s" and "central_enabled s"
  shows "window_inv (on_btnStart_clicked cwd s)"
  using assms
  by (auto simp: window_inv_def on_btnStart_clicked_def busy_def Let_def start_thread_def
      split: option.splits)

lemma window_inv_converted:
  assumes "window_inv s" and "onConvertingFinished s = Inr s'"
  shows "window_inv s'"
proof -
  from assms(2) obtain a where "convert_thread s = Some (Thread a Started)"
    and "s' = s\<lparr>convert_thread := Some (Thread a Deleted),
                 api_thread := start_thread (self_file s, bad_words s, asr_model s),
                 status_message := ''Transcribing...''\<rparr>"
    unfolding onConvertingFinished_Inr by blast
  with assms(1) show ?thesis
    by (auto simp: window_inv_def busy_def)
qed

lemma window_inv_progress: "window_inv s \<Longrightarrow> window_inv (onDetectingProgress r s)"
  by (auto simp: window_inv_def onDetectingProgress_def busy_def)

lemma window_inv_detected:
  assumes "window_inv s" and "onDetectingFinished s = Inr s'"
  shows "window_inv s'"
proof -
  from assms(2) obtain a where "api_thread s = Some (Thread a Started)"
    and "s' = s\<lparr>api_thread := Some (Thread a Deleted), spinner_on := False,
                 central_enabled := True, status_message := ''Detection is finished.'',
                 dialogs := dialogs s @
                   [Information (''Finished detection.'' @ [CHR 0x0A] @ ''Please check the result list.'')]\<rparr>"
    unfolding onDetectingFinished_Inr by blast
  with assms(1) show ?thesis
    by (simp add: window_inv_def busy_def)
qed

lemma window_inv_handle:
  assumes "window_inv s" and "can_occur ev s" and "handle ev s = Inr s'"
  shows "window_inv s'"
proof (cases ev)
  case BtnLoadModel
  with assms window_inv_load [of s] show ?thesis by auto
next
  case (ModelLoadingFinished m)
  with assms window_inv_model_finished [of s m s'] show ?thesis by simp
next
  case (BtnOpen chosen)
  with assms window_inv_open [of s chosen] show ?thesis by auto
next
  case (EditBadWords typed)
  with assms window_inv_edit [of s typed] show ?thesis by auto
next
  case (BtnStart cwd)
  with assms window_inv_start [of s cwd] show ?thesis by auto
next
  case ConvertingFinished
  with assms window_inv_converted [of s s'] show ?thesis by simp
next
  case (DetectingProgress r)
  with assms window_inv_progress [of s r] show ?thesis by auto
next
  case DetectingFinished
  with assms window_inv_detected [of s s'] show ?thesis by simp
qed

lemma reachable_inv: "reachable s \<Longrightarrow> window_inv s"
  by (induction rule: reachable.induct) (auto intro: window_inv_init window_inv_handle)

section \<open>Sequences of events\<close>

lemma run_events_reachable: "reachable s \<Longrightarrow> run_events evs s = Some s' \<Longrightarrow> reachable s'"
  by (induction evs arbitrary: s) (auto split: if_splits sum.splits intro: reachable.step)

lemma run_events_append:
  "run_events (evs @ evs') s =
     (case run_events evs s of None \<Rightarrow> None | Some s' \<Rightarrow> run_events evs' s')"
  by (induction evs arbitrary: s) (auto split: sum.splits)

lemma run_events_progress:
  assumes "is_started (api_thread s)"
  shows "run_events (map DetectingProgress rs) s =
           Some (s\<lparr>listResult := listResult s @ filter (\<lambda>r. r \<noteq> []) rs\<rparr>)"
  using assms
  by (induction rs arbitrary: s) (simp_all add: onDetectingProgress_def)

lemma thread_events_model_loading:
  "thread_events (model_loading_run restore p) =
     (case restore p of Inr m \<Rightarrow> [ModelLoadingFinished m] | Inl e \<Rightarrow> [])"
  by (simp add: thread_events_def model_loading_run_def split: sum.splits)

lemma thread_events_convert [simp]:
  "thread_events (convert_run popen f out) = [ConvertingFinished]"
  by (simp add: thread_events_def convert_run_def split: sum.splits)

lemma start_accepted:
  assumes "asr_model s = Some model" and "self_file s = Some f" and "f \<noteq> []"
    and "get_bad_words (txtBadWords s) \<noteq> []"
  shows "on_btnStart_clicked cwd s =
     s\<lparr>bad_words := get_bad_words (txtBadWords s), spinner_on := True, listResult := [],
        central_enabled := False, status_message := ''Converting audio file to wav...'',
        convert_thread := start_thread (f, outfile_in cwd),
        self_file := Some (outfile_in cwd)\<rparr>"
  using assms by (simp add: on_btnStart_clicked_def Let_def)

text \<open>
  A whole detection, as the sequence of the click on Start, the signal of the converter
  and the signals of the detector: every event is accepted, and the state at the end
  is the one below.
\<close>

lemma detection_run:
  assumes "central_enabled s" and "asr_model s = Some model" and "self_file s = Some f"
    and "f \<noteq> []" and "get_bad_words (txtBadWords s) = bw" and "bw \<noteq> []"
  shows "run_events
           ([BtnStart cwd] @ thread_events (convert_run popen f (outfile_in cwd)) @
            map signal_event (signals (detector_run model (outfile_in cwd) bw))) s =
         Some (s\<lparr>bad_words := bw, listResult := fst (detect model (outfile_in cwd) bw),
                 status_message := ''Detection is finished.'',
                 convert_thread := Some (Thread (f, outfile_in cwd) Deleted),
                 self_file := Some (outfile_in cwd),
                 api_thread := Some (Thread (Some (outfile_in cwd), bw, Some model) Deleted),
                 spinner_on := False, central_enabled := True,
                 dialogs := dialogs s @
                   [Information (''Finished detection.'' @ [CHR 0x0A] @ ''Please check the result list.'')]\<rparr>)"
proof -
  let ?out = "outfile_in cwd"
  let ?s1 = "on_btnStart_clicked cwd s"
  have s1: "?s1 = s\<lparr>bad_words := bw, spinner_on := True, listResult := [],
        central_enabled := False, status_message := ''Converting audio file to wav...'',
        convert_thread := start_thread (f, ?out), self_file := Some ?out\<rparr>"
    using start_accepted [OF assms(2,3,4), of cwd] assms(5,6) by simp
  let ?s2 = "?s1\<lparr>convert_thread := Some (Thread (f, ?out) Deleted),
        api_thread := start_thread (Some ?out, bw, Some model),
        status_message := ''Transcribing...''\<rparr>"
  have s2: "onConvertingFinished ?s1 = Inr ?s2"
    by (simp add: s1 onConvertingFinished_def start_thread_def assms(2))
  let ?rs = "fst (detect model ?out bw)"
  let ?s3 = "?s2\<lparr>listResult := listResult ?s2 @ filter (\<lambda>r. r \<noteq> []) ?rs\<rparr>"
  have p: "run_events (map DetectingProgress ?rs) ?s2 = Some ?s3"
    by (rule run_events_progress) simp
  have s4: "onDetectingFinished ?s3 = Inr (?s3\<lparr>api_thread := Some (Thread (Some ?out, bw, Some model) Deleted),
        spinner_on := False, central_enabled := True, status_message := ''Detection is finished.'',
        dialogs := dialogs ?s3 @
          [Information (''Finished detection.'' @ [CHR 0x0A] @ ''Please check the result list.'')]\<rparr>)"
    by (simp add: onDetectingFinished_def start_thread_def)
  show ?thesis
    using assms(1) s2 p s4
    by (simp add: s1 signals_detector_run run_events_append comp_def start_thread_def)
qed

lemma converter_run_started [simp]:
  "convert_thread s = Some (Thread (inp, out) Started) \<Longrightarrow>
     converter_run popen s = Some (convert_run popen inp out)"
  by (simp add: converter_run_def)

lemma busy_cases:
  assumes "window_inv s"
  shows "central_enabled s \<or> is_started (model_thread s) \<or> is_started (convert_thread s)
           \<or> is_started (api_thread s)"
  using assms by (auto simp: window_inv_def busy_def)

lemma closeEvent_converting:
  assumes "window_inv s" and "is_started (convert_thread s)"
  shows "closeEvent s = s"
proof -
  from assms have "is_deleted (model_thread s)" and "\<not> is_started (api_thread s)"
    by (auto simp: window_inv_def)
  then obtain a where m: "model_thread s = Some (Thread a Deleted)"
    by (auto simp: is_deleted_iff)
  from \<open>\<not> is_started (api_thread s)\<close> show ?thesis
    by (cases "api_thread s" rule: thread_option_cases) (simp_all add: closeEvent_def m)
qed

section \<open>Properties of the window\<close>

text \<open>
  C7 (invariant). Every state the window can reach satisfies \<open>window_inv\<close>: the spinner,
  the disabled central widget and a started thread go together, at most one thread is
  started at a time, and a started converter or detector was constructed from a loaded
  model, a chosen file and a non-empty word list.
\<close>

theorem window_invariant: "reachable s \<Longrightarrow> window_inv s"
  by (rule reachable_inv)

theorem window_invariant_witness:
  "window_inv
     \<lparr>model_thread = Some (Thread ''stt_en_jasper10x5dr.nemo'' Deleted),
      convert_thread = Some (Thread (''a.mp3'', ''/tmp/outfile.wav'') Started),
      api_thread = None, asr_model = Some (), self_file = Some ''/tmp/outfile.wav'',
      bad_words = [''bad''], spinner_on = True, central_enabled = False,
      btnLoadModel_enabled = False, status_message = ''Converting audio file to wav...'',
      edtFilePath = ''a.mp3'', txtBadWords = ''bad'', listResult = [], dialogs = []\<rparr>"
  using window_invariant [OF run_events_reachable [OF reachable.init,
      of "[BtnLoadModel, ModelLoadingFinished (), BtnOpen ''a.mp3'', EditBadWords ''bad'',
          BtnStart ''/tmp'']"]]
  by (simp add: run_defs py_defs)

text \<open>
  C19 (safety). A detector thread that is started was constructed from the current
  \<open>self.file\<close>, \<open>self.bad_words\<close> and \<open>self.asr_model\<close>; the file and the model are set, the
  word list is the non-empty normal form of the text in the word field, and the central
  widget is disabled.
\<close>

theorem detection_inputs:
  assumes "reachable s" and "api_thread s = Some (Thread (f, ws, m) Started)"
  shows "f = self_file s \<and> f \<noteq> None \<and> ws = get_bad_words (txtBadWords s) \<and> ws \<noteq> [] \<and>
         m = asr_model s \<and> m \<noteq> None \<and> \<not> central_enabled s"
  using reachable_inv [OF assms(1)] assms(2)
  by (auto simp: window_inv_def busy_def start_thread_def)

theorem detection_inputs_witness:
  "\<exists>s. run_events
      [BtnLoadModel, ModelLoadingFinished (), BtnOpen ''a.mp3'', EditBadWords ''Bad , word'',
       BtnStart ''/tmp'', ConvertingFinished] init_window = Some s \<and>
       api_thread s = Some (Thread (Some ''/tmp/outfile.wav'', [''bad'', ''word''], Some ()) Started) \<and>
       \<not> central_enabled s"
proof -
  let ?evs = "[BtnLoadModel, ModelLoadingFinished (), BtnOpen ''a.mp3'',
    EditBadWords ''Bad , word'', BtnStart ''/tmp'', ConvertingFinished]"
  obtain s where s: "run_events ?evs (init_window :: unit window) = Some s"
    and api: "api_thread s = Some (Thread (Some ''/tmp/outfile.wav'', [''bad'', ''word''], Some ()) Started)"
    by (simp add: run_defs py_defs)
  from detection_inputs [OF run_events_reachable [OF reachable.init s] api] s api
  show ?thesis by simp
qed

text \<open>
  C20 (functional). \<open>on_btnStart_clicked\<close> on every branch: with a model, a non-empty file
  name and a non-empty normalised word list it clears the result list, disables the
  central widget, starts a converter from \<open>self.file\<close> to \<open>outfile.wav\<close> in the current
  directory and sets \<open>self.file\<close> to that output; otherwise it shows one error dialog,
  starts nothing and leaves \<open>self.file\<close> as it is.
\<close>

theorem start_outcome:
  "(let s' = on_btnStart_clicked cwd s in
    case (asr_model s, self_file s) of
      (Some m, Some (c # cs)) \<Rightarrow>
        (if get_bad_words (txtBadWords s) \<noteq> [] then
           convert_thread s' = start_thread (c # cs, outfile_in cwd) \<and>
           self_file s' = Some (outfile_in cwd) \<and>
           bad_words s' = get_bad_words (txtBadWords s) \<and>
           listResult s' = [] \<and> \<not> central_enabled s' \<and> spinner_on s' \<and>
           dialogs s' = dialogs s
         else
           s' = s\<lparr>bad_words := [], dialogs := dialogs s @ [Critical ''Please type bad words.'']\<rparr>)
    | (Some m, _) \<Rightarrow>
        s' = s\<lparr>dialogs := dialogs s @ [Critical ''Please open audio file to detect.'']\<rparr>
    | (None, _) \<Rightarrow>
        s' = s\<lparr>dialogs := dialogs s @ [Critical ''Please load model first.'']\<rparr>)"
  by (simp add: on_btnStart_clicked_def Let_def split: option.splits list.splits)

theorem start_outcome_witness:
  "on_btnStart_clicked ''/tmp''
     (init_window\<lparr>asr_model := Some (), self_file := Some ''a.mp3'', txtBadWords := '' ''\<rparr>)
   = init_window\<lparr>asr_model := Some (), self_file := Some ''a.mp3'', txtBadWords := '' '',
       dialogs := [Critical ''Please type bad words.'']\<rparr>"
  using start_outcome [of "''/tmp''"
      "init_window\<lparr>asr_model := Some (), self_file := Some ''a.mp3'', txtBadWords := '' ''\<rparr>"]
  by (simp add: run_defs py_defs)

text \<open>
  C18 (safety). Closing the window while the converter runs changes nothing: the loaded
  model means the loading thread has been deleted, the call on it raises inside
  \<open>closeEvent\<close>, the bare \<open>except\<close> swallows the exception, and the statements that would
  terminate the converter are never reached.
\<close>

theorem close_leaves_converter_running:
  assumes "reachable s" and "is_started (convert_thread s)"
  shows "closeEvent s = s"
  using reachable_inv [OF assms(1)] assms(2) by (rule closeEvent_converting)

theorem close_leaves_converter_running_witness:
  "\<exists>s. run_events
      [BtnLoadModel, ModelLoadingFinished (), BtnOpen ''a.mp3'', EditBadWords ''bad'',
       BtnStart ''/tmp''] init_window = Some s \<and>
       convert_thread s = Some (Thread (''a.mp3'', ''/tmp/outfile.wav'') Started) \<and>
       closeEvent s = s"
proof -
  let ?evs = "[BtnLoadModel, ModelLoadingFinished (), BtnOpen ''a.mp3'', EditBadWords ''bad'',
    BtnStart ''/tmp'']"
  obtain s where s: "run_events ?evs (init_window :: unit window) = Some s"
    and c: "convert_thread s = Some (Thread (''a.mp3'', ''/tmp/outfile.wav'') Started)"
    by (simp add: run_defs py_defs)
  from close_leaves_converter_running [OF run_events_reachable [OF reachable.init s]] s c
  show ?thesis by simp
qed

text \<open>
  C36 (safety). While the model is loading, the only event the window accepts is the
  signal of the loading thread: every button and field is in the disabled central
  widget and no other thread is started.
\<close>

theorem loading_accepts_only_its_signal:
  assumes "reachable s" and "is_started (model_thread s)"
  shows "can_occur ev s \<longleftrightarrow> (\<exists>m. ev = ModelLoadingFinished m)"
  using reachable_inv [OF assms(1)] assms(2)
  by (cases ev) (auto simp: window_inv_def busy_def)

theorem loading_accepts_only_its_signal_witness:
  "\<not> can_occur (BtnStart ''/tmp'') (on_btnLoadModel_clicked (init_window :: unit window)) \<and>
   can_occur (ModelLoadingFinished ()) (on_btnLoadModel_clicked (init_window :: unit window))"
  using loading_accepts_only_its_signal [OF reachable.step [OF reachable.init,
      of BtnLoadModel "on_btnLoadModel_clicked init_window"], of "BtnStart ''/tmp''"]
  by (simp add: init_window_def on_btnLoadModel_clicked_def)

end
