(* ===== verification/Spec2Isabelle.thy ===== *)
theory Spec2Isabelle
  imports Controller
begin

text \<open>
  \<^bold>\<open>A verification development for the audio profanity detector\<close>
  (\<open>src/main/python/main_window.py\<close>).

  \<^bold>\<open>The program.\<close> A desktop application: the user loads a speech model, opens an audio
  file, types a comma-separated list of words and starts the detection. The window
  (\<open>MainWindow\<close>) starts three worker threads in turn: \<open>ModelLoadingThread\<close> restores the
  model, \<open>ConvertThread\<close> starts \<open>ffmpeg\<close> to produce a 16 kHz mono file, and
  \<open>DetectorThread\<close> transcribes the file, turns the model's per-frame log-probabilities
  into silence intervals and reports every word that contains one of the typed words,
  with a start and an end time. The threads answer with signals, which the window
  handles one at a time.

  \<^bold>\<open>The theories\<close>, in the order of their imports:

  \<^item> \<open>Prelude\<close>: the exceptions (\<open>py_error\<close>), the result of a call that may raise
    (\<open>'a result\<close>, sequenced by \<open>and_then\<close>), Python list indexing (\<open>py_nth\<close>), the fact
    collections \<open>py_defs\<close> and \<open>run_defs\<close>, and the list lemmas the components share.
  \<^item> \<open>Numpy\<close>: \<open>DetectorThread.softmax\<close> (lines 228-230) and \<open>np.argmax\<close> as called in
    \<open>run\<close> (lines 250, 254): \<open>argmax\<close>, \<open>np_max\<close>, \<open>softmax_row\<close>, \<open>softmax\<close>. Arrays are
    lists of rows, floats are reals. Lemmas: \<open>argmax\<close> finds the first largest entry and
    is invariant under strictly increasing maps; \<open>softmax\<close> yields positive rows of sum 1
    and raises exactly on an array without elements.
  \<^item> \<open>Segmenter\<close>: the first loop of \<open>run\<close> (lines 244-268): the record \<open>seg_state\<close>
    for the variables \<open>state\<close>, \<open>idx_state\<close>, \<open>spaces\<close>; \<open>seg_init\<close>, \<open>seg_step\<close>,
    \<open>seg_loop\<close>, \<open>seg_finish\<close> and \<open>segment\<close>. Lemmas: the loop invariant \<open>seg_inv\<close>
    and its preservation by every branch of the loop body; the result covers exactly
    the silent frames of the reference automaton \<open>silent\<close>; the intervals are in
    range, sorted, separated, and maximal runs; the outcome on every input, errors
    included; softmax does not change the result.
  \<^item> \<open>PyString\<close>: the string methods the program calls (lines 96, 97, 272, 277):
    \<open>split_ws\<close> (\<open>str.split()\<close>), \<open>split_on\<close>, \<open>join\<close>, \<open>strip\<close>, \<open>lower\<close>, \<open>py_in\<close>.
    Lemmas: what \<open>split_ws\<close> returns (the maximal runs), its round trip with \<open>join\<close>, the round trip of
    \<open>split_on\<close> and \<open>join\<close>, \<open>py_in\<close> is the sublist relation.
  \<^item> \<open>TimeFormat\<close>: \<open>time.gmtime\<close> and \<open>time.strftime("%H:%M:%S")\<close> (lines 280-281):
    \<open>gmtime\<close>, \<open>strftime_HMS\<close>, \<open>hms\<close>. Lemmas: the printed text has the shape
    \<open>dd:dd:dd\<close> and reads back as the whole seconds of the time modulo one day.
  \<^item> \<open>Aligner\<close>: the second loop of \<open>run\<close> (lines 269-284): \<open>pos_end_of\<close>, \<open>matches\<close>,
    \<open>format_result\<close>, the record \<open>align_state\<close>, \<open>align_step\<close>, \<open>align_loop\<close>, \<open>align\<close>.
    Lemmas: the emitted signals are the \<open>reports\<close> of a prefix of the intervals; when
    the loop raises; the first word is never examined; boundary times increase; when
    a report has start \<open>\<le>\<close> end.
  \<^item> \<open>Keywords\<close>: \<open>MainWindow.get_bad_words\<close> (lines 94-99): \<open>normalise\<close>,
    \<open>get_bad_words\<close>. Lemmas: the normal form of the entries and the length of the list.
  \<^item> \<open>Detector\<close>: \<open>DetectorThread.run\<close> as a whole (lines 232-289): the record
    \<open>asr_model\<close> of the two calls of the speech model, \<open>first_transcript\<close> and
    \<open>first_logits\<close> (the calls with their index \<open>[0]\<close>), \<open>detect\<close> (the \<open>try\<close> block) and
    \<open>detector_run\<close> (with \<open>except\<close> and \<open>finally\<close>), whose value is the trace of emitted
    signals and log entries. Lemmas: \<open>finished\<close> is always emitted, once and last; the
    run in closed form; the run when the model raises.
  \<^item> \<open>Workers\<close>: \<open>ModelLoadingThread.run\<close> (lines 166-175) and \<open>ConvertThread.run\<close>
    (lines 186-212) as traces of actions: \<open>model_loading_run\<close>, \<open>convert_run\<close>; \<open>spawned\<close>
    runs a trace over a file system and returns what each started process finds.
  \<^item> \<open>Controller\<close>: \<open>MainWindow\<close> (lines 16-156): the record \<open>window\<close>, one function
    per handler, \<open>handle\<close> and \<open>can_occur\<close> over the datatype \<open>event\<close>, the inductive
    predicate \<open>reachable\<close> and the executable \<open>run_events\<close>. Lemmas: the invariant
    \<open>window_inv\<close> and its preservation by every handler; the outcome of the start
    handler on every branch; what a detector is started with; what \<open>closeEvent\<close> does
    during a conversion.
  \<^item> \<open>Spec2Isabelle\<close> (this theory): the properties that span components: softmax and
    segmentation, the typed word list and the matcher, and the window together with
    its threads (a whole detection, a failed model load, a second start).

  \<^bold>\<open>Modelling decisions.\<close> Every exception the source can raise is a value \<open>Inl e\<close>; a
  statement sequence is a chain of \<open>and_then\<close>. Library calls (\<open>np.argmax\<close>, \<open>np.max\<close>,
  \<open>np.exp\<close>, the \<open>str\<close> methods, \<open>time.gmtime\<close>, \<open>time.strftime\<close>) are modelled by their
  documented behaviour at the lines that call them. The collaborators the program only
  calls are parameters: the speech model is a pair of functions that return or raise,
  \<open>restore_from\<close> and \<open>Popen\<close> likewise, and every theorem holds for all of them. A thread
  is modelled by what it emits; the window by what its handlers do to its attributes
  and widgets; the two are composed by turning the emitted signals into events
  (\<open>signal_event\<close>, \<open>thread_events\<close>). No definition needs fuel: every loop of the program
  runs over a finite list and is a structural recursion or a \<open>fold\<close>; \<open>split_ws\<close> recurses
  on a shorter string and has a termination proof.

  \<^bold>\<open>Assumptions.\<close> Floats are reals: no rounding, no underflow, no NaN; a boundary time
  that is an exact whole second can print one second later than in the source (see
  \<open>Aligner\<close>). \<open>gmtime\<close> accepts negative times, as on POSIX; on Windows it raises
  instead. Characters have codes below 256; whitespace and upper-case letters are the
  ones Python has in that range (see \<open>PyString\<close>). The library functions (\<open>np.argmax\<close>,
  \<open>np.max\<close>, the \<open>str\<close> methods, \<open>time.gmtime\<close>, \<open>time.strftime\<close>) are written from their
  documentation; the source lines named for them are the calls.
  The buttons and fields of the generated user interface are children of the central
  widget, so a click needs the central widget enabled; a signal arrives only from a
  thread that was started and not yet deleted; a deferred deletion has happened when
  the next handler runs, and a call on a deleted thread object raises \<open>RuntimeError\<close>.

  \<^bold>\<open>Not modelled.\<close> The neural network, \<open>ffmpeg\<close> itself and the contents of files, the Qt
  widgets beyond the properties the handlers use, the appearance of the spinner, the
  text written to \<open>log.txt\<close> (the model records that an entry is written and for which
  exception), preemption of a running thread by \<open>terminate()\<close>.

  \<^bold>\<open>What remains.\<close> The detector works on the converter's output file while \<open>ffmpeg\<close> may
  still be writing it; a model of the file's contents over time would make that
  interleaving a theorem instead of a remark. The character class of \<open>str.lower\<close> and
  \<open>str.split\<close> beyond Latin-1, and floating-point arithmetic in the boundary times,
  are further refinements of the present definitions.
\<close>

section \<open>Softmax and segmentation\<close>

text \<open>
  C10 (equivalence). \<open>run\<close> segments the softmax of the model's log-probabilities; the
  result is the same as segmenting the log-probabilities themselves, because softmax
  changes neither the arg-max of a row nor the shape of the matrix.
\<close>

theorem segment_softmax:
  assumes "softmax logits = Inr probs"
  shows "segment probs = segment logits"
  using assms by (rule segment_softmax_eq)

theorem segment_softmax_witness:
  "segment (map (softmax_row 2) [[1, 2], [2, 0]]) = segment [[1, 2], [2, 0]]"
  using segment_softmax [of "[[1, 2], [2, 0]]" "map (softmax_row 2) [[1, 2], [2, 0]]"]
  by (simp add: softmax_def np_max_def)

section \<open>The typed word list and the matcher\<close>

lemma keyword_in_capitals_is_empty:
  assumes "keyword_ok k" and "py_in k w" and "list_all isupper w"
  shows "k = []"
proof (rule ccontr)
  assume "k \<noteq> []"
  then obtain c where c: "c \<in> set k" by (cases k) auto
  from assms(2) have "set k \<subseteq> set w"
    by (simp add: py_in_sublist set_mono_sublist)
  with c assms(3) have "isupper c" by (auto simp: list_all_iff)
  with c assms(1) show False by (auto simp: keyword_ok_def list_all_iff)
qed

text \<open>
  C23 (functional). The words of the transcript are compared as they are, only the
  typed words are lower-cased: a transcript word written in capital letters matches
  the typed list only if the list has an empty entry. The match is case-sensitive on
  the side of the transcript.
\<close>

theorem capitals_match_only_empty_keyword:
  assumes "list_all isupper w"
  shows "hit (get_bad_words plain) w \<longleftrightarrow> [] \<in> set (get_bad_words plain)"
proof
  assume "hit (get_bad_words plain) w"
  then obtain k where k: "k \<in> set (get_bad_words plain)" "py_in k w"
    by (auto simp: hit_def list_ex_iff)
  with get_bad_words_ok [of plain] have "keyword_ok k" by (simp add: list_all_iff)
  from keyword_in_capitals_is_empty [OF this k(2) assms] k(1)
  show "[] \<in> set (get_bad_words plain)" by simp
next
  assume "[] \<in> set (get_bad_words plain)"
  then show "hit (get_bad_words plain) w" by (rule hit_empty_keyword)
qed

theorem capitals_match_only_empty_keyword_witness:
  "\<not> hit (get_bad_words ''Bad'') ''BAD'' \<and> hit (get_bad_words ''Bad'') ''bad''"
  using capitals_match_only_empty_keyword [of "''BAD''" "''Bad''"]
  by (simp add: run_defs py_defs)

text \<open>
  C22 (functional). A typed word list that ends with a comma makes every examined word
  a match: \<open>get_bad_words\<close> then returns a list with an empty entry, the start handler
  accepts it, and the alignment loop reports each of the
  \<open>min (len spaces) (len words - 1)\<close> words it looks at.
\<close>

theorem trailing_comma_reports_every_word:
  "length (fst (align (get_bad_words (plain @ '','')) words spcs))
     = min (length spcs) (length words - 1)"
  using trailing_comma_empty_entry [of plain]
  by (simp add: align_result length_reports_empty_keyword)

theorem trailing_comma_reports_every_word_witness:
  "length (fst (align (get_bad_words ''bad,'') [''a'', ''nice'', ''day''] [(20, 30), (50, 60)])) = 2"
  using trailing_comma_reports_every_word [of "''bad''" "[''a'', ''nice'', ''day'']"
      "[(20, 30), (50, 60)]"]
  by simp

section \<open>The window and its threads\<close>

text \<open>
  C5 (functional). One detection from the user's click to the result list. In a state
  with an enabled central widget, a loaded model, a chosen file and a word field whose
  normal form \<open>bw\<close> is not empty, the click on Start, the signal of the converter and the
  signals of the detector (run on the output file with \<open>bw\<close> and the loaded model) are
  all accepted in this order; afterwards the result list holds exactly the reports of
  \<open>DetectorThread.run\<close>, the central widget is enabled again, the spinner is off, the
  detector is deleted and \<open>self.file\<close> names the output file.
\<close>

theorem session:
  assumes "central_enabled s" and "asr_model s = Some model" and "self_file s = Some f"
    and "f \<noteq> []" and "get_bad_words (txtBadWords s) = bw" and "bw \<noteq> []"
  shows "\<exists>s'. run_events
           ([BtnStart cwd] @ thread_events (convert_run popen f (outfile_in cwd)) @
            map signal_event (signals (detector_run model (outfile_in cwd) bw))) s = Some s' \<and>
         listResult s' = fst (detect model (outfile_in cwd) bw) \<and>
         central_enabled s' \<and> \<not> spinner_on s' \<and> self_file s' = Some (outfile_in cwd) \<and>
         api_thread s' = Some (Thread (Some (outfile_in cwd), bw, Some model) Deleted)"
  using detection_run [OF assms, of cwd popen] by simp

theorem session_witness:
  "\<exists>s'. run_events
      ([BtnStart ''/tmp''] @
       thread_events (convert_run (\<lambda>cmd. Inr ()) ''a.mp3'' ''/tmp/outfile.wav'') @
       map signal_event (signals (detector_run
         \<lparr>transcribe = (\<lambda>fs. Inr [''the quick bad fox'']),
          transcribe_logprobs = (\<lambda>fs. Inr [[[- 3, - 1], [- 1, - 2], [- 1, - 3], [- 4, - 1]]])\<rparr>
         ''/tmp/outfile.wav'' [''quick''])))
      (init_window\<lparr>asr_model := Some
         \<lparr>transcribe = (\<lambda>fs. Inr [''the quick bad fox'']),
          transcribe_logprobs = (\<lambda>fs. Inr [[[- 3, - 1], [- 1, - 2], [- 1, - 3], [- 4, - 1]]])\<rparr>,
         self_file := Some ''a.mp3'', txtBadWords := ''Quick''\<rparr>) = Some s' \<and>
     listResult s' = [''quick Start: 00:00:00 End: 23:59:59'']"
proof -
  let ?M = "\<lparr>transcribe = (\<lambda>fs. Inr [''the quick bad fox'']),
             transcribe_logprobs = (\<lambda>fs. Inr [[[- 3, - 1], [- 1, - 2], [- 1, - 3], [- 4, - 1]]])\<rparr>"
  let ?s0 = "init_window\<lparr>asr_model := Some ?M, self_file := Some ''a.mp3'',
    txtBadWords := ''Quick''\<rparr>"
  have bw: "get_bad_words ''Quick'' = [''quick'']"
    by (simp add: run_defs py_defs)
  have h: "central_enabled ?s0" "asr_model ?s0 = Some ?M" "self_file ?s0 = Some ''a.mp3''"
    "''a.mp3'' \<noteq> []" "get_bad_words (txtBadWords ?s0) = [''quick'']" "[''quick''] \<noteq> []"
    by (simp_all add: init_window_def bw)
  have out: "outfile_in ''/tmp'' = ''/tmp/outfile.wav''"
    by (simp add: outfile_in_def)
  from session [OF h, of "''/tmp''" "\<lambda>cmd. Inr ()"] show ?thesis
    by (simp only: out detect_example) blast
qed

text \<open>
  C16 (liveness). A model that cannot be restored leaves the window blocked. After the
  click on Load, \<open>ModelLoadingThread.run\<close> with a failing \<open>restore_from\<close> emits nothing (its
  \<open>finally\<close> clause raises \<open>UnboundLocalError\<close>), so the window stays in the state the click
  produced: central widget disabled, spinner on, and no event possible but the signal
  that never comes.
\<close>

theorem failed_load_blocks_window:
  assumes "reachable s" and "can_occur BtnLoadModel s"
    and "raises (restore ''stt_en_jasper10x5dr.nemo'')"
  shows "\<exists>s'. run_events (BtnLoadModel #
              thread_events (model_loading_run restore ''stt_en_jasper10x5dr.nemo'')) s = Some s' \<and>
            model_thread s' = start_thread ''stt_en_jasper10x5dr.nemo'' \<and>
            \<not> central_enabled s' \<and> spinner_on s' \<and>
            (\<forall>ev. can_occur ev s' \<longrightarrow> (\<exists>m. ev = ModelLoadingFinished m))"
proof -
  let ?s' = "on_btnLoadModel_clicked s"
  from assms(3) obtain e where e: "restore ''stt_en_jasper10x5dr.nemo'' = Inl e"
    by (cases "restore ''stt_en_jasper10x5dr.nemo''") simp_all
  from reachable_inv [OF assms(1)] assms(2) have none: "asr_model s = None"
    by (simp add: window_inv_def)
  then have s': "model_thread ?s' = start_thread ''stt_en_jasper10x5dr.nemo''"
    "\<not> central_enabled ?s'" "spinner_on ?s'"
    by (simp_all add: on_btnLoadModel_clicked_def)
  from assms(1,2) have r: "reachable ?s'"
    by (auto intro: reachable.step [of s BtnLoadModel])
  have "\<forall>ev. can_occur ev ?s' \<longrightarrow> (\<exists>m. ev = ModelLoadingFinished m)"
  proof (intro allI impI)
    fix ev assume "can_occur ev ?s'"
    with reachable_inv [OF r] s'(1) show "\<exists>m. ev = ModelLoadingFinished m"
      by (cases ev) (auto simp: window_inv_def busy_def)
  qed
  with s' assms(2) e show ?thesis
    by (simp add: thread_events_model_loading)
qed

theorem failed_load_blocks_window_witness:
  "\<exists>s'. run_events (BtnLoadModel # thread_events (model_loading_run
            (\<lambda>p. Inl (External ''file not found'')) ''stt_en_jasper10x5dr.nemo''))
          (init_window :: unit window) = Some s' \<and>
        \<not> central_enabled s' \<and> \<not> can_occur (BtnStart ''/tmp'') s' \<and> \<not> can_occur BtnLoadModel s'"
proof -
  have "can_occur BtnLoadModel (init_window :: unit window)"
    by (simp add: init_window_def)
  from failed_load_blocks_window [OF reachable.init this,
      of "\<lambda>p. Inl (External ''file not found'')"]
  show ?thesis by fastforce
qed

text \<open>
  C17 (safety). A second detection without opening a file again starts \<open>ffmpeg\<close> on an
  input that does not exist. After a whole detection (the click on Start, the signal
  of the converter, the signals of the detector) the next click on Start in the same
  directory is accepted and constructs a converter whose input is the output path of
  the first one, because the start handler has overwritten \<open>self.file\<close>. Whatever files
  exist when that converter runs, its \<open>run\<close> removes the output file first, so the one
  process it starts names an input that is missing at that moment.
\<close>

theorem second_start_consumes_its_input:
  assumes "central_enabled s" and "asr_model s = Some model" and "self_file s = Some f"
    and "f \<noteq> []" and "get_bad_words (txtBadWords s) = bw" and "bw \<noteq> []"
    and "\<not> raises (launch (ffmpeg_command (outfile_in cwd) (outfile_in cwd)))"
  shows "\<exists>s'. run_events
           ([BtnStart cwd] @ thread_events (convert_run popen f (outfile_in cwd)) @
            map signal_event (signals (detector_run model (outfile_in cwd) bw)) @
            [BtnStart cwd]) s = Some s' \<and>
         convert_thread s' = Some (Thread (outfile_in cwd, outfile_in cwd) Started) \<and>
         (\<exists>tr. converter_run launch s' = Some tr \<and>
            map input_missing (spawned (actions tr) fs) = [True])"
proof -
  let ?out = "outfile_in cwd"
  let ?evs = "[BtnStart cwd] @ thread_events (convert_run popen f ?out) @
    map signal_event (signals (detector_run model ?out bw))"
  from detection_run [OF assms(1-6), of cwd popen] obtain s1
    where run: "run_events ?evs s = Some s1"
      and s1: "central_enabled s1" "asr_model s1 = Some model" "self_file s1 = Some ?out"
        "get_bad_words (txtBadWords s1) = bw"
    by (simp add: assms(2,5))
  have "?out \<noteq> []" by (simp add: outfile_in_def)
  from start_accepted [OF s1(2,3) this, of cwd] s1(4) assms(6)
  have "convert_thread (on_btnStart_clicked cwd s1) = Some (Thread (?out, ?out) Started)"
    by (simp add: start_thread_def)
  moreover have "run_events (?evs @ [BtnStart cwd]) s = Some (on_btnStart_clicked cwd s1)"
    by (simp only: run_events_append [of ?evs] run option.case) (simp add: s1(1))
  moreover from assms(7)
  have "map input_missing
      (spawned (actions (convert_run launch ?out ?out :: asr_model worker_trace)) fs) = [True]"
    by (simp add: input_missing_convert_run)
  ultimately show ?thesis by simp
qed

theorem second_start_consumes_its_input_witness:
  "\<exists>s'. run_events
      ([BtnStart ''/tmp''] @
       thread_events (convert_run (\<lambda>cmd. Inr ()) ''a.mp3'' ''/tmp/outfile.wav'') @
       map signal_event (signals (detector_run
         \<lparr>transcribe = (\<lambda>fs. Inl (External ''no such file'')),
          transcribe_logprobs = (\<lambda>fs. Inr [])\<rparr> ''/tmp/outfile.wav'' [''bad''])) @
       [BtnStart ''/tmp''])
      (init_window\<lparr>asr_model := Some
         \<lparr>transcribe = (\<lambda>fs. Inl (External ''no such file'')),
          transcribe_logprobs = (\<lambda>fs. Inr [])\<rparr>,
         self_file := Some ''a.mp3'', txtBadWords := ''bad''\<rparr>) = Some s' \<and>
     convert_thread s' = Some (Thread (''/tmp/outfile.wav'', ''/tmp/outfile.wav'') Started) \<and>
     (\<exists>tr. converter_run (\<lambda>cmd. Inr ()) s' = Some tr \<and>
        map input_missing (spawned (actions tr) {''a.mp3'', ''/tmp/outfile.wav''}) = [True])"
proof -
  let ?M = "\<lparr>transcribe = (\<lambda>fs. Inl (External ''no such file'')),
             transcribe_logprobs = (\<lambda>fs. Inr [])\<rparr>"
  let ?s0 = "init_window\<lparr>asr_model := Some ?M, self_file := Some ''a.mp3'',
    txtBadWords := ''bad''\<rparr>"
  have h: "central_enabled ?s0" "asr_model ?s0 = Some ?M" "self_file ?s0 = Some ''a.mp3''"
    "''a.mp3'' \<noteq> []" "get_bad_words (txtBadWords ?s0) = [''bad'']" "[''bad''] \<noteq> []"
    "\<not> raises ((\<lambda>cmd. Inr ()) (ffmpeg_command (outfile_in ''/tmp'') (outfile_in ''/tmp'')))"
    by (simp_all add: init_window_def run_defs py_defs)
  have out: "outfile_in ''/tmp'' = ''/tmp/outfile.wav''"
    by (simp add: outfile_in_def)
  from second_start_consumes_its_input [where cwd = "''/tmp''" and popen = "\<lambda>cmd. Inr ()"
      and launch = "\<lambda>cmd. Inr ()" and fs = "{''a.mp3'', ''/tmp/outfile.wav''}", OF h]
  show ?thesis
    by (simp only: out)
qed

end
